theory Spec2Isabelle
  imports Main "HOL-Library.Word" "HOL-Library.Monad_Syntax"
begin

unbundle bit_operations_syntax

section \<open>The polled I2C master driver of \<^verbatim>\<open>src/bsp/i2c.c\<close>\<close>

subsection \<open>Data\<close>

text \<open>
  The target is a 32-bit RISC-V core: a pointer is a 32-bit address, memory is a flat
  store of bytes, and pointer arithmetic on \<^verbatim>\<open>uint8_t *\<close> is word addition.
\<close>

type_synonym uint8_t = "8 word"
type_synonym uint32_t = "32 word"

text \<open>
  Modelled from the spec: the header \<^verbatim>\<open>i2c.h\<close> that declares
  \<^verbatim>\<open>i2c_state_t\<close> is missing; the status result is one of OK and FAIL.
\<close>

datatype i2c_state_t = BSP_I2C_OK | BSP_I2C_FAIL

text \<open>
  Modelled from the spec: the peripheral library's header is missing. These are the
  names the driver passes to it: the six status flags it polls, the two transfer
  directions, the two ACK positions and the two ACK settings.
\<close>

datatype i2c_flag =
  I2C_FLAG_I2CBSY | I2C_FLAG_SBSEND | I2C_FLAG_ADDSEND
| I2C_FLAG_TBE | I2C_FLAG_BTC | I2C_FLAG_RBNE

datatype i2c_direction = I2C_TRANSMITTER | I2C_RECEIVER

datatype i2c_ackpos = I2C_ACKPOS_CURRENT | I2C_ACKPOS_NEXT

datatype i2c_ack = I2C_ACK_ENABLE | I2C_ACK_DISABLE

text \<open>
  One hardware access of the driver. Every call of the source names the peripheral
  \<^verbatim>\<open>I2C0\<close>, so the peripheral is not an argument here. An access that reads the
  peripheral carries the value read.
\<close>

datatype hw_op =
  Flag_get i2c_flag bool
| Flag_clear i2c_flag
| Start_on_bus
| Stop_on_bus
| Master_addressing uint32_t i2c_direction
| Data_transmit uint8_t
| Data_receive uint8_t
| Ctl0_read uint32_t
| Ackpos_config i2c_ackpos
| Ack_config i2c_ack

text \<open>
  The machine state the driver acts on: the byte store and the hardware accesses made
  so far, oldest first.
\<close>

record state =
  mem :: "uint32_t \<Rightarrow> uint8_t"
  trace :: "hw_op list"

text \<open>
  Modelled from the spec: the peripheral is an external collaborator. Whatever it is, the
  value of a read is determined by the accesses made so far (each poll is an access, so
  the passing of time is part of that history).
\<close>

record i2c_dev =
  flag_resp :: "hw_op list \<Rightarrow> i2c_flag \<Rightarrow> bool"
  ctl0_resp :: "hw_op list \<Rightarrow> uint32_t"
  data_resp :: "hw_op list \<Rightarrow> uint8_t"

subsection \<open>The peripheral operations the driver calls\<close>

definition emit :: "hw_op \<Rightarrow> state \<Rightarrow> state" where
  "emit e s = s\<lparr>trace := trace s @ [e]\<rparr>"

definition i2c_flag_get :: "i2c_dev \<Rightarrow> i2c_flag \<Rightarrow> state \<Rightarrow> bool \<times> state" where
  "i2c_flag_get d f s =
     (let b = flag_resp d (trace s) f in (b, emit (Flag_get f b) s))"

definition I2C_CTL0 :: "i2c_dev \<Rightarrow> state \<Rightarrow> uint32_t \<times> state" where
  "I2C_CTL0 d s = (let w = ctl0_resp d (trace s) in (w, emit (Ctl0_read w) s))"

definition i2c_data_receive :: "i2c_dev \<Rightarrow> state \<Rightarrow> uint8_t \<times> state" where
  "i2c_data_receive d s = (let v = data_resp d (trace s) in (v, emit (Data_receive v) s))"

definition i2c_flag_clear :: "i2c_flag \<Rightarrow> state \<Rightarrow> state" where
  "i2c_flag_clear f s = emit (Flag_clear f) s"

definition i2c_start_on_bus :: "state \<Rightarrow> state" where
  "i2c_start_on_bus s = emit Start_on_bus s"

definition i2c_stop_on_bus :: "state \<Rightarrow> state" where
  "i2c_stop_on_bus s = emit Stop_on_bus s"

definition i2c_master_addressing :: "uint32_t \<Rightarrow> i2c_direction \<Rightarrow> state \<Rightarrow> state" where
  "i2c_master_addressing a dir s = emit (Master_addressing a dir) s"

definition i2c_data_transmit :: "uint8_t \<Rightarrow> state \<Rightarrow> state" where
  "i2c_data_transmit v s = emit (Data_transmit v) s"

definition i2c_ackpos_config :: "i2c_ackpos \<Rightarrow> state \<Rightarrow> state" where
  "i2c_ackpos_config p s = emit (Ackpos_config p) s"

definition i2c_ack_config :: "i2c_ack \<Rightarrow> state \<Rightarrow> state" where
  "i2c_ack_config a s = emit (Ack_config a) s"

subsection \<open>The polling loops\<close>

text \<open>
  \<^verbatim>\<open>while (i2c_flag_get(I2C0, f));\<close> is \<open>poll_flag d f True\<close> and
  \<^verbatim>\<open>while (!i2c_flag_get(I2C0, f));\<close> is \<open>poll_flag d f False\<close>: the loop goes
  round for as long as the flag reads \<open>spin\<close>. Nothing bounds it; a loop that goes
  round forever has the value \<open>None\<close>.
\<close>

partial_function (option) poll_flag ::
  "i2c_dev \<Rightarrow> i2c_flag \<Rightarrow> bool \<Rightarrow> state \<Rightarrow> state option" where
  "poll_flag d f spin s =
     (case i2c_flag_get d f s of
        (b, s') \<Rightarrow> if b = spin then poll_flag d f spin s' else Some s')"

text \<open>\<^verbatim>\<open>while (I2C_CTL0(I2C0) & 0x0200);\<close>\<close>

partial_function (option) wait_stop :: "i2c_dev \<Rightarrow> state \<Rightarrow> state option" where
  "wait_stop d s =
     (case I2C_CTL0 d s of
        (w, s') \<Rightarrow> if w AND 0x0200 \<noteq> 0 then wait_stop d s' else Some s')"

declare poll_flag.simps [code]
declare wait_stop.simps [code]

subsection \<open>\<^verbatim>\<open>bsp_i2c0_write\<close>\<close>

text \<open>
  The loop \<^verbatim>\<open>while (i) { ...; data++; --i; }\<close> of lines 44 to 52, with its two
  loop variables as arguments.
\<close>

function tx_loop :: "i2c_dev \<Rightarrow> uint32_t \<Rightarrow> uint8_t \<Rightarrow> state \<Rightarrow> state option" where
  "tx_loop d data i s =
     (if i \<noteq> 0 then
        do {
          s1 \<leftarrow> poll_flag d I2C_FLAG_TBE False (i2c_data_transmit (mem s data) s);
          tx_loop d (data + 1) (i - 1) s1
        }
      else Some s)"
  by pat_completeness auto
termination
  by (relation "measure (\<lambda>(d, data, i, s). unat i)") (auto simp: unat_minus_one unat_gt_0)

text \<open>
  The address argument \<^verbatim>\<open>(i2c_dev_7bit_addr << 1)\<close>: the \<^verbatim>\<open>uint8_t\<close> is
  promoted to a 32-bit \<^verbatim>\<open>int\<close> before the shift, so no bit is lost.
\<close>

definition addr_shl1 :: "uint8_t \<Rightarrow> uint32_t" where
  "addr_shl1 a = push_bit 1 (ucast a)"

definition bsp_i2c0_write ::
  "i2c_dev \<Rightarrow> uint8_t \<Rightarrow> uint32_t \<Rightarrow> uint8_t \<Rightarrow> state \<Rightarrow> (i2c_state_t \<times> state) option" where
  "bsp_i2c0_write d i2c_dev_7bit_addr data count s =
     (if count < 1 then Some (BSP_I2C_FAIL, s)
      else do {
        s1 \<leftarrow> poll_flag d I2C_FLAG_I2CBSY True s;
        s2 \<leftarrow> poll_flag d I2C_FLAG_SBSEND False (i2c_start_on_bus s1);
        s3 \<leftarrow> poll_flag d I2C_FLAG_ADDSEND False
               (i2c_master_addressing (addr_shl1 i2c_dev_7bit_addr) I2C_TRANSMITTER s2);
        s4 \<leftarrow> poll_flag d I2C_FLAG_TBE False (i2c_flag_clear I2C_FLAG_ADDSEND s3);
        s5 \<leftarrow> tx_loop d data count s4;
        s6 \<leftarrow> wait_stop d (i2c_stop_on_bus s5);
        Some (BSP_I2C_OK, s6)
      })"

subsection \<open>\<^verbatim>\<open>bsp_i2c0_reg8_write\<close>\<close>

text \<open>
  \<open>txbuffer\<close> is the address of the local array \<^verbatim>\<open>uint8_t txbuffer[2]\<close> in the
  function's own stack frame; where the frame lies is the compiler's choice, so it is an
  argument. The initialiser stores \<open>reg\<close> and \<open>value\<close> there.
\<close>

definition bsp_i2c0_reg8_write ::
  "i2c_dev \<Rightarrow> uint32_t \<Rightarrow> uint8_t \<Rightarrow> uint8_t \<Rightarrow> uint8_t \<Rightarrow> state
     \<Rightarrow> (i2c_state_t \<times> state) option" where
  "bsp_i2c0_reg8_write d txbuffer i2c_dev_7bit_addr reg val s =
     do {
       (r, s1) \<leftarrow> bsp_i2c0_write d i2c_dev_7bit_addr txbuffer 2
                    (s\<lparr>mem := (mem s)(txbuffer := reg, txbuffer + 1 := val)\<rparr>);
       Some (BSP_I2C_OK, s1)
     }"

subsection \<open>\<^verbatim>\<open>bsp_i2c0_read\<close>\<close>

text \<open>
  The loop \<^verbatim>\<open>for (i = 0; i < count; i++)\<close> of lines 106 to 119. \<open>i\<close> is a C
  \<^verbatim>\<open>int\<close> that stays between 0 and 255, and \<open>count\<close> is promoted to
  \<^verbatim>\<open>int\<close> in \<^verbatim>\<open>i < count\<close> and \<^verbatim>\<open>count - 3\<close>.
\<close>

function rx_loop :: "i2c_dev \<Rightarrow> uint32_t \<Rightarrow> uint8_t \<Rightarrow> int \<Rightarrow> state \<Rightarrow> state option" where
  "rx_loop d data count i s =
     (if i < uint count then
        do {
          s1 \<leftarrow> (if uint count - 3 = i then
                   do {
                     s' \<leftarrow> poll_flag d I2C_FLAG_BTC False s;
                     Some (i2c_ack_config I2C_ACK_DISABLE s')
                   }
                 else Some s);
          s2 \<leftarrow> poll_flag d I2C_FLAG_RBNE False s1;
          (case i2c_data_receive d s2 of
             (v, s3) \<Rightarrow>
               rx_loop d data count (i + 1) (s3\<lparr>mem := (mem s3)(data + word_of_int i := v)\<rparr>))
        }
      else Some s)"
  by pat_completeness auto
termination
  by (relation "measure (\<lambda>(d, data, count, i, s). nat (uint count - i))") auto

text \<open>
  Lines 104 to 142, the branch on \<open>count\<close> that receives the bytes. In the branch
  for two bytes \<^verbatim>\<open>data[i++]\<close> and \<^verbatim>\<open>data[i]\<close> are \<^verbatim>\<open>data[0]\<close> and
  \<^verbatim>\<open>data[1]\<close>, since \<open>i\<close> is 0 there.
\<close>

definition receive_bytes :: "i2c_dev \<Rightarrow> uint32_t \<Rightarrow> uint8_t \<Rightarrow> state \<Rightarrow> state option" where
  "receive_bytes d data count s =
     (if count \<ge> 3 then rx_loop d data count 0 s
      else if count = 2 then
        do {
          a1 \<leftarrow> poll_flag d I2C_FLAG_BTC False s;
          a2 \<leftarrow> poll_flag d I2C_FLAG_RBNE False a1;
          (case i2c_data_receive d a2 of
             (v0, a3) \<Rightarrow>
               do {
                 a4 \<leftarrow> poll_flag d I2C_FLAG_RBNE False (a3\<lparr>mem := (mem a3)(data := v0)\<rparr>);
                 (case i2c_data_receive d a4 of
                    (v1, a5) \<Rightarrow> Some (a5\<lparr>mem := (mem a5)(data + 1 := v1)\<rparr>))
               })
        }
      else
        do {
          a1 \<leftarrow> poll_flag d I2C_FLAG_BTC False s;
          a2 \<leftarrow> poll_flag d I2C_FLAG_RBNE False a1;
          (case i2c_data_receive d a2 of
             (v0, a3) \<Rightarrow> Some (a3\<lparr>mem := (mem a3)(data := v0)\<rparr>))
        })"

definition bsp_i2c0_read ::
  "i2c_dev \<Rightarrow> uint8_t \<Rightarrow> uint32_t \<Rightarrow> uint8_t \<Rightarrow> state \<Rightarrow> (i2c_state_t \<times> state) option" where
  "bsp_i2c0_read d i2c_dev_7bit_addr data count s =
     (if count < 1 then Some (BSP_I2C_FAIL, s)
      else do {
        s1 \<leftarrow> poll_flag d I2C_FLAG_I2CBSY True (i2c_ackpos_config I2C_ACKPOS_NEXT s);
        s2 \<leftarrow> poll_flag d I2C_FLAG_SBSEND False (i2c_start_on_bus s1);
        s3 \<leftarrow> poll_flag d I2C_FLAG_ADDSEND False
               (i2c_master_addressing (addr_shl1 i2c_dev_7bit_addr) I2C_RECEIVER s2);
        s5 \<leftarrow> receive_bytes d data count (i2c_flag_clear I2C_FLAG_ADDSEND s3);
        s6 \<leftarrow> wait_stop d (i2c_stop_on_bus s5);
        Some (BSP_I2C_OK, i2c_ack_config I2C_ACK_ENABLE (i2c_ackpos_config I2C_ACKPOS_CURRENT s6))
      })"

subsection \<open>\<^verbatim>\<open>bsp_i2c0_reg8_read\<close>\<close>

text \<open>
  Line 164 passes \<^verbatim>\<open>(uint8_t*)reg\<close> as the buffer: the register index, zero-extended,
  is used as an address.
\<close>

definition bsp_i2c0_reg8_read ::
  "i2c_dev \<Rightarrow> uint8_t \<Rightarrow> uint8_t \<Rightarrow> uint32_t \<Rightarrow> state \<Rightarrow> (i2c_state_t \<times> state) option" where
  "bsp_i2c0_reg8_read d i2c_dev_7bit_addr reg val s =
     do {
       (r1, s1) \<leftarrow> bsp_i2c0_write d i2c_dev_7bit_addr (ucast reg) 1 s;
       (r2, s2) \<leftarrow> bsp_i2c0_read d i2c_dev_7bit_addr val 1 s1;
       Some (BSP_I2C_OK, s2)
     }"

declare tx_loop.simps [simp del]
declare rx_loop.simps [simp del]

section \<open>Access sequences and peripherals\<close>

text \<open>
  The accesses of one polling loop on a flag: \<open>n\<close> reads that keep the loop going
  and the read that ends it.
\<close>

definition polled :: "i2c_flag \<Rightarrow> bool \<Rightarrow> nat \<Rightarrow> hw_op list" where
  "polled f spin n = replicate n (Flag_get f spin) @ [Flag_get f (\<not> spin)]"

text \<open>
  The stop bit of the control register, and the accesses of the loop that polls it:
  the values read while the bit is set, then the value that has it clear.
\<close>

definition stop_set :: "uint32_t \<Rightarrow> bool" where
  "stop_set w \<longleftrightarrow> w AND 0x0200 \<noteq> 0"

definition stop_polled :: "uint32_t list \<Rightarrow> uint32_t \<Rightarrow> hw_op list" where
  "stop_polled ws w = map Ctl0_read ws @ [Ctl0_read w]"

text \<open>
  For \<open>i\<close> from 0 to \<open>length ns - 1\<close>: the byte at \<open>data + i\<close> of the store \<open>m\<close>
  is transmitted, then transmit-buffer-empty is polled (\<open>ns ! i\<close> reads keep the loop
  going).
\<close>

definition tx_ops :: "(uint32_t \<Rightarrow> uint8_t) \<Rightarrow> uint32_t \<Rightarrow> nat list \<Rightarrow> hw_op list" where
  "tx_ops m data ns =
     concat (map (\<lambda>i. Data_transmit (m (data + of_nat i)) # polled I2C_FLAG_TBE False (ns ! i))
               [0..<length ns])"

text \<open>
  A peripheral is responsive when no polling loop of the driver can go round forever
  against it: from any history, polling bus-busy reads clear after some number of polls,
  polling any other flag reads set after some number of polls, and reading the control
  register shows the stop bit clear after some number of reads. \<open>flag_polls\<close> and
  \<open>ctl0_polls\<close> are the history after \<open>n\<close> such reads.
\<close>

fun flag_polls :: "i2c_dev \<Rightarrow> i2c_flag \<Rightarrow> hw_op list \<Rightarrow> nat \<Rightarrow> hw_op list" where
  "flag_polls d f h 0 = h"
| "flag_polls d f h (Suc n) = flag_polls d f (h @ [Flag_get f (flag_resp d h f)]) n"

fun ctl0_polls :: "i2c_dev \<Rightarrow> hw_op list \<Rightarrow> nat \<Rightarrow> hw_op list" where
  "ctl0_polls d h 0 = h"
| "ctl0_polls d h (Suc n) = ctl0_polls d (h @ [Ctl0_read (ctl0_resp d h)]) n"

definition responsive :: "i2c_dev \<Rightarrow> bool" where
  "responsive d \<longleftrightarrow>
     (\<forall>h. \<exists>n. \<not> flag_resp d (flag_polls d I2C_FLAG_I2CBSY h n) I2C_FLAG_I2CBSY) \<and>
     (\<forall>h f. f \<noteq> I2C_FLAG_I2CBSY \<longrightarrow> (\<exists>n. flag_resp d (flag_polls d f h n) f)) \<and>
     (\<forall>h. \<exists>n. \<not> stop_set (ctl0_resp d (ctl0_polls d h n)))"

text \<open>
  Two peripherals to run the driver on. \<open>ready_dev\<close> answers every poll at once;
  \<open>slow_dev\<close> makes every polling loop go round once before it answers. Both deliver
  as data the number of accesses made so far.
\<close>

definition ready_dev :: i2c_dev where
  "ready_dev = \<lparr>flag_resp = (\<lambda>h f. f \<noteq> I2C_FLAG_I2CBSY), ctl0_resp = (\<lambda>h. 0),
     data_resp = (\<lambda>h. of_nat (length h))\<rparr>"

definition slow_dev :: i2c_dev where
  "slow_dev =
     \<lparr>flag_resp =
        (\<lambda>h f. if h \<noteq> [] \<and> last h = Flag_get f (f = I2C_FLAG_I2CBSY)
               then f \<noteq> I2C_FLAG_I2CBSY else f = I2C_FLAG_I2CBSY),
      ctl0_resp = (\<lambda>h. if h \<noteq> [] \<and> last h = Ctl0_read 0x0200 then 0 else 0x0200),
      data_resp = (\<lambda>h. of_nat (length h))\<rparr>"

text \<open>The store that holds 0 everywhere.\<close>

definition mem0 :: "uint32_t \<Rightarrow> uint8_t" where "mem0 = (\<lambda>a. 0)"

text \<open>A store to start from: bytes 7, 8, 9 at addresses 2 to 4, and \<open>0xAA\<close> at 5.\<close>

definition s0 :: state where
  "s0 = \<lparr>mem = mem0(2 := 7, 3 := 8, 4 := 9, 5 := 0xAA), trace = []\<rparr>"

text \<open>
  Modelled from the spec: the peripheral keeps the ACK setting and the ACK position it
  was configured with last; \<open>None\<close> when the accesses never configured it.
\<close>

definition ack_setting :: "hw_op list \<Rightarrow> i2c_ack option" where
  "ack_setting t = fold (\<lambda>e a. case e of Ack_config x \<Rightarrow> Some x | _ \<Rightarrow> a) t None"

definition ackpos_setting :: "hw_op list \<Rightarrow> i2c_ackpos option" where
  "ackpos_setting t = fold (\<lambda>e a. case e of Ackpos_config x \<Rightarrow> Some x | _ \<Rightarrow> a) t None"

section \<open>The loops\<close>

lemma poll_flag_trace:
  assumes "poll_flag d f spin s = Some s'"
  shows "\<exists>n. s' = s\<lparr>trace := trace s @ polled f spin n\<rparr>"
proof (induct rule: poll_flag.raw_induct [OF _ assms])
  case (1 poll d f spin s s')
  show ?case
  proof (cases "flag_resp d (trace s) f = spin")
    case True
    with 1(2) have "poll d f spin (emit (Flag_get f spin) s) = Some s'"
      by (simp add: i2c_flag_get_def Let_def)
    from 1(1)[OF this] obtain n where
      "s' = (emit (Flag_get f spin) s)\<lparr>trace := trace (emit (Flag_get f spin) s) @ polled f spin n\<rparr>"
      by blast
    then have "s' = s\<lparr>trace := trace s @ polled f spin (Suc n)\<rparr>"
      by (simp add: emit_def polled_def)
    then show ?thesis by blast
  next
    case False
    with 1(2) have "s' = s\<lparr>trace := trace s @ polled f spin 0\<rparr>"
      by (auto simp: i2c_flag_get_def Let_def emit_def polled_def)
    then show ?thesis by blast
  qed
qed

lemma wait_stop_trace:
  assumes "wait_stop d s = Some s'"
  shows "\<exists>ws w. s' = s\<lparr>trace := trace s @ stop_polled ws w\<rparr> \<and> list_all stop_set ws \<and> \<not> stop_set w"
proof (induct rule: wait_stop.raw_induct [OF _ assms])
  case (1 wait d s s')
  define x where "x = ctl0_resp d (trace s)"
  show ?case
  proof (cases "stop_set x")
    case True
    with 1(2) have "wait d (emit (Ctl0_read x) s) = Some s'"
      by (simp add: I2C_CTL0_def Let_def x_def stop_set_def)
    from 1(1)[OF this] obtain ws w where
      "s' = (emit (Ctl0_read x) s)\<lparr>trace := trace (emit (Ctl0_read x) s) @ stop_polled ws w\<rparr>"
      "list_all stop_set ws" "\<not> stop_set w"
      by blast
    with True have "s' = s\<lparr>trace := trace s @ stop_polled (x # ws) w\<rparr> \<and>
        list_all stop_set (x # ws) \<and> \<not> stop_set w"
      by (simp add: emit_def stop_polled_def)
    then show ?thesis by blast
  next
    case False
    with 1(2) have "s' = s\<lparr>trace := trace s @ stop_polled [] x\<rparr> \<and> list_all stop_set [] \<and> \<not> stop_set x"
      by (auto simp: I2C_CTL0_def Let_def emit_def stop_polled_def x_def stop_set_def)
    then show ?thesis by blast
  qed
qed

lemma poll_flag_returns:
  "flag_resp d (flag_polls d f (trace s) n) f \<noteq> spin \<Longrightarrow> \<exists>s'. poll_flag d f spin s = Some s'"
proof (induction n arbitrary: s)
  case 0
  then show ?case
    by (subst poll_flag.simps) (simp add: i2c_flag_get_def Let_def)
next
  case (Suc n)
  show ?case
  proof (cases "flag_resp d (trace s) f = spin")
    case True
    have "flag_resp d (flag_polls d f (trace (emit (Flag_get f spin) s)) n) f \<noteq> spin"
      using Suc.prems True by (simp add: emit_def)
    from Suc.IH[OF this] obtain s' where "poll_flag d f spin (emit (Flag_get f spin) s) = Some s'"
      by blast
    with True show ?thesis
      by (subst poll_flag.simps) (simp add: i2c_flag_get_def Let_def)
  next
    case False
    then show ?thesis
      by (subst poll_flag.simps) (simp add: i2c_flag_get_def Let_def)
  qed
qed

lemma wait_stop_returns:
  "\<not> stop_set (ctl0_resp d (ctl0_polls d (trace s) n)) \<Longrightarrow> \<exists>s'. wait_stop d s = Some s'"
proof (induction n arbitrary: s)
  case 0
  then show ?case
    by (subst wait_stop.simps) (simp add: I2C_CTL0_def Let_def stop_set_def)
next
  case (Suc n)
  define x where "x = ctl0_resp d (trace s)"
  show ?case
  proof (cases "stop_set x")
    case True
    have "\<not> stop_set (ctl0_resp d (ctl0_polls d (trace (emit (Ctl0_read x) s)) n))"
      using Suc.prems by (simp add: emit_def x_def)
    from Suc.IH[OF this] obtain s' where "wait_stop d (emit (Ctl0_read x) s) = Some s'"
      by blast
    with True show ?thesis
      by (subst wait_stop.simps) (simp add: I2C_CTL0_def Let_def stop_set_def x_def)
  next
    case False
    then show ?thesis
      by (subst wait_stop.simps) (simp add: I2C_CTL0_def Let_def stop_set_def x_def)
  qed
qed

lemma responsive_busy: "responsive d \<Longrightarrow> \<exists>s'. poll_flag d I2C_FLAG_I2CBSY True s = Some s'"
proof -
  assume "responsive d"
  then obtain n where "\<not> flag_resp d (flag_polls d I2C_FLAG_I2CBSY (trace s) n) I2C_FLAG_I2CBSY"
    unfolding responsive_def by blast
  then show ?thesis using poll_flag_returns[of d I2C_FLAG_I2CBSY s n True] by simp
qed

lemma responsive_flag:
  "responsive d \<Longrightarrow> f \<noteq> I2C_FLAG_I2CBSY \<Longrightarrow> \<exists>s'. poll_flag d f False s = Some s'"
proof -
  assume "responsive d" "f \<noteq> I2C_FLAG_I2CBSY"
  then obtain n where "flag_resp d (flag_polls d f (trace s) n) f"
    unfolding responsive_def by blast
  then show ?thesis using poll_flag_returns[of d f s n False] by simp
qed

lemma responsive_stop: "responsive d \<Longrightarrow> \<exists>s'. wait_stop d s = Some s'"
proof -
  assume "responsive d"
  then obtain n where "\<not> stop_set (ctl0_resp d (ctl0_polls d (trace s) n))"
    unfolding responsive_def by blast
  then show ?thesis by (rule wait_stop_returns)
qed

lemma tx_ops_Nil: "tx_ops m data [] = []"
  by (simp add: tx_ops_def)

lemma tx_ops_Cons:
  "tx_ops m data (n # ns) = Data_transmit (m data) # polled I2C_FLAG_TBE False n @ tx_ops m (data + 1) ns"
  by (simp add: tx_ops_def map_upt_Suc add.assoc del: upt_Suc)

lemma tx_loop_trace:
  "tx_loop d data i s = Some s' \<Longrightarrow>
     \<exists>ns. length ns = unat i \<and> s' = s\<lparr>trace := trace s @ tx_ops (mem s) data ns\<rparr>"
proof (induction d data i s rule: tx_loop.induct)
  case (1 d data i s)
  show ?case
  proof (cases "i = 0")
    case True
    with "1.prems" have "length [] = unat i \<and> s' = s\<lparr>trace := trace s @ tx_ops (mem s) data []\<rparr>"
      by (simp add: tx_loop.simps tx_ops_Nil)
    then show ?thesis by blast
  next
    case False
    with "1.prems" obtain s1 where
      p: "poll_flag d I2C_FLAG_TBE False (i2c_data_transmit (mem s data) s) = Some s1" and
      r: "tx_loop d (data + 1) (i - 1) s1 = Some s'"
      by (subst (asm) tx_loop.simps) (auto split: bind_splits)
    from poll_flag_trace[OF p] obtain n where
      s1: "s1 = s\<lparr>trace := trace s @ Data_transmit (mem s data) # polled I2C_FLAG_TBE False n\<rparr>"
      by (auto simp: i2c_data_transmit_def emit_def)
    from "1.IH"[OF False p r] obtain ns where
      ns: "length ns = unat (i - 1)" "s' = s1\<lparr>trace := trace s1 @ tx_ops (mem s1) (data + 1) ns\<rparr>"
      by blast
    from False have "length (n # ns) = unat i"
      using ns(1) by (simp add: unat_minus_one unat_gt_0 Suc_leI)
    moreover have "s' = s\<lparr>trace := trace s @ tx_ops (mem s) data (n # ns)\<rparr>"
      using ns(2) s1 by (simp add: tx_ops_Cons)
    ultimately show ?thesis by blast
  qed
qed

lemma tx_loop_returns:
  "responsive d \<Longrightarrow> \<exists>s'. tx_loop d data i s = Some s'"
proof (induction d data i s rule: tx_loop.induct)
  case (1 d data i s)
  show ?case
  proof (cases "i = 0")
    case True
    then show ?thesis by (simp add: tx_loop.simps)
  next
    case False
    from responsive_flag[OF "1.prems", of I2C_FLAG_TBE] obtain s1 where
      p: "poll_flag d I2C_FLAG_TBE False (i2c_data_transmit (mem s data) s) = Some s1"
      by blast
    from "1.IH"[OF False p "1.prems"] obtain s' where "tx_loop d (data + 1) (i - 1) s1 = Some s'"
      by blast
    with False p show ?thesis
      by (subst tx_loop.simps) simp
  qed
qed

lemma rx_loop_done: "\<not> i < uint count \<Longrightarrow> rx_loop d data count i s = Some s' \<Longrightarrow> s' = s"
  by (simp add: rx_loop.simps)

lemma rx_loop_step:
  assumes "i < uint count" and "rx_loop d data count i s = Some s'"
  shows "\<exists>nb m v.
           rx_loop d data count (i + 1)
             (s\<lparr>trace := trace s
                   @ (if uint count - 3 = i
                      then polled I2C_FLAG_BTC False nb @ [Ack_config I2C_ACK_DISABLE] else [])
                   @ polled I2C_FLAG_RBNE False m @ [Data_receive v],
                 mem := (mem s)(data + word_of_int i := v)\<rparr>) = Some s'"
proof -
  from assms obtain s1 s2 where
    q1: "(if uint count - 3 = i then
            do { s' \<leftarrow> poll_flag d I2C_FLAG_BTC False s; Some (i2c_ack_config I2C_ACK_DISABLE s') }
          else Some s) = Some s1" and
    q2: "poll_flag d I2C_FLAG_RBNE False s1 = Some s2" and
    q3: "rx_loop d data count (i + 1)
           ((emit (Data_receive (data_resp d (trace s2))) s2)
              \<lparr>mem := (mem s2)(data + word_of_int i := data_resp d (trace s2))\<rparr>) = Some s'"
    by (subst (asm) rx_loop.simps)
       (auto simp: i2c_data_receive_def Let_def emit_def split: bind_splits)
  have "\<exists>nb. s1 = s\<lparr>trace := trace s @ (if uint count - 3 = i
          then polled I2C_FLAG_BTC False nb @ [Ack_config I2C_ACK_DISABLE] else [])\<rparr>"
  proof (cases "uint count - 3 = i")
    case True
    with q1 obtain t where t: "poll_flag d I2C_FLAG_BTC False s = Some t"
      "s1 = i2c_ack_config I2C_ACK_DISABLE t"
      by (auto split: bind_splits)
    from poll_flag_trace[OF t(1)] t(2) True show ?thesis
      by (auto simp: i2c_ack_config_def emit_def)
  next
    case False
    with q1 show ?thesis by simp
  qed
  then obtain nb where e1: "s1 = s\<lparr>trace := trace s @ (if uint count - 3 = i
          then polled I2C_FLAG_BTC False nb @ [Ack_config I2C_ACK_DISABLE] else [])\<rparr>"
    by blast
  from poll_flag_trace[OF q2] obtain m where
    e2: "s2 = s1\<lparr>trace := trace s1 @ polled I2C_FLAG_RBNE False m\<rparr>" by blast
  have "(emit (Data_receive (data_resp d (trace s2))) s2)
              \<lparr>mem := (mem s2)(data + word_of_int i := data_resp d (trace s2))\<rparr>
      = s\<lparr>trace := trace s
                   @ (if uint count - 3 = i
                      then polled I2C_FLAG_BTC False nb @ [Ack_config I2C_ACK_DISABLE] else [])
                   @ polled I2C_FLAG_RBNE False m @ [Data_receive (data_resp d (trace s2))],
                 mem := (mem s)(data + word_of_int i := data_resp d (trace s2))\<rparr>"
    by (simp add: e1 e2 emit_def)
  with q3 show ?thesis by metis
qed

lemma rx_loop_last:
  "i < uint count \<Longrightarrow> rx_loop d data count i s = Some s' \<Longrightarrow>
     \<exists>pre v. trace s' = trace s @ pre @ [Data_receive v]"
proof (induction "nat (uint count - i)" arbitrary: i s)
  case 0
  then show ?case by simp
next
  case (Suc k)
  from rx_loop_step[OF Suc.prems] obtain nb m v where
    r: "rx_loop d data count (i + 1)
             (s\<lparr>trace := trace s
                   @ (if uint count - 3 = i
                      then polled I2C_FLAG_BTC False nb @ [Ack_config I2C_ACK_DISABLE] else [])
                   @ polled I2C_FLAG_RBNE False m @ [Data_receive v],
                 mem := (mem s)(data + word_of_int i := v)\<rparr>) = Some s'"
    (is "rx_loop _ _ _ _ (s\<lparr>trace := trace s @ ?A @ ?B @ _, mem := ?M\<rparr>) = _")
    by blast
  have t: "trace (s\<lparr>trace := trace s @ ?A @ ?B @ [Data_receive v], mem := ?M\<rparr>)
      = trace s @ ?A @ ?B @ [Data_receive v]"
    by simp
  show ?case
  proof (cases "i + 1 < uint count")
    case True
    from Suc.hyps(2) have "k = nat (uint count - (i + 1))" by simp
    from Suc.hyps(1)[OF this True r] obtain pre v' where
      "trace s' = (trace s @ ?A @ ?B @ [Data_receive v]) @ pre @ [Data_receive v']"
      unfolding t by blast
    then have "trace s' = trace s @ (?A @ ?B @ [Data_receive v] @ pre) @ [Data_receive v']"
      by (simp only: append_assoc)
    then show ?thesis by blast
  next
    case False
    from rx_loop_done[OF False r] t
    have "trace s' = trace s @ (?A @ ?B) @ [Data_receive v]"
      by (simp only: append_assoc)
    then show ?thesis by blast
  qed
qed

lemma rx_loop_frame:
  "0 \<le> i \<Longrightarrow> rx_loop d data count i s = Some s' \<Longrightarrow>
     \<forall>k. nat i \<le> k \<and> k < unat count \<longrightarrow> x \<noteq> data + of_nat k \<Longrightarrow> mem s' x = mem s x"
proof (induction "nat (uint count - i)" arbitrary: i s)
  case 0
  then have "\<not> i < uint count" by simp
  from rx_loop_done[OF this 0(3)] show ?case by simp
next
  case (Suc k)
  from Suc.hyps(2) have lt: "i < uint count" by simp
  from rx_loop_step[OF lt Suc.prems(2)] obtain nb m v where
    r: "rx_loop d data count (i + 1)
             (s\<lparr>trace := trace s
                   @ (if uint count - 3 = i
                      then polled I2C_FLAG_BTC False nb @ [Ack_config I2C_ACK_DISABLE] else [])
                   @ polled I2C_FLAG_RBNE False m @ [Data_receive v],
                 mem := (mem s)(data + word_of_int i := v)\<rparr>) = Some s'"
    (is "rx_loop _ _ _ _ ?t = _")
    by blast
  have mt: "mem ?t = (mem s)(data + word_of_int i := v)" by simp
  from Suc.hyps(2) have k: "k = nat (uint count - (i + 1))" by simp
  from Suc.prems(1) have i1: "0 \<le> i + 1" by simp
  have rest: "\<forall>k. nat (i + 1) \<le> k \<and> k < unat count \<longrightarrow> x \<noteq> data + of_nat k"
  proof (intro allI impI)
    fix j assume "nat (i + 1) \<le> j \<and> j < unat count"
    with Suc.prems(1) have "nat i \<le> j \<and> j < unat count" by linarith
    with Suc.prems(3) show "x \<noteq> data + of_nat j" by blast
  qed
  have here: "x \<noteq> data + word_of_int i"
  proof -
    have "uint count = int (unat count)" by simp
    with lt Suc.prems(1) have "nat i < unat count" by linarith
    with Suc.prems(3) have "x \<noteq> data + of_nat (nat i)" by blast
    with Suc.prems(1) show ?thesis by simp
  qed
  from Suc.hyps(1)[OF k i1 r rest] have "mem s' x = mem ?t x" .
  with here mt show ?case by simp
qed

lemma rx_loop_returns:
  "responsive d \<Longrightarrow> \<exists>s'. rx_loop d data count i s = Some s'"
proof (induction d data count i s rule: rx_loop.induct)
  case (1 d data count i s)
  show ?case
  proof (cases "i < uint count")
    case False
    then show ?thesis by (simp add: rx_loop.simps)
  next
    case True
    have "\<exists>s1. (if uint count - 3 = i then
            do { s' \<leftarrow> poll_flag d I2C_FLAG_BTC False s; Some (i2c_ack_config I2C_ACK_DISABLE s') }
          else Some s) = Some s1"
    proof (cases "uint count - 3 = i")
      case True
      from responsive_flag[OF "1.prems", of I2C_FLAG_BTC s] obtain t where
        "poll_flag d I2C_FLAG_BTC False s = Some t" by blast
      with True show ?thesis by simp
    next
      case False
      then show ?thesis by simp
    qed
    then obtain s1 where q1: "(if uint count - 3 = i then
            do { s' \<leftarrow> poll_flag d I2C_FLAG_BTC False s; Some (i2c_ack_config I2C_ACK_DISABLE s') }
          else Some s) = Some s1" by blast
    from responsive_flag[OF "1.prems"] obtain s2 where
      q2: "poll_flag d I2C_FLAG_RBNE False s1 = Some s2" by blast
    obtain v s3 where q3: "i2c_data_receive d s2 = (v, s3)" by (cases "i2c_data_receive d s2")
    from "1.IH"[OF True q1 q2 q3[symmetric] "1.prems"] obtain s' where
      "rx_loop d data count (i + 1) (s3\<lparr>mem := (mem s3)(data + word_of_int i := v)\<rparr>) = Some s'"
      by blast
    then have "rx_loop d data count i s = Some s'"
      by (subst rx_loop.simps) (simp only: True if_True q1 q2 q3 bind.bind_lunit prod.case)
    then show ?thesis by blast
  qed
qed

section \<open>The four operations\<close>

subsection \<open>Writing\<close>

lemma write_fail: "count < 1 \<Longrightarrow> bsp_i2c0_write d a data count s = Some (BSP_I2C_FAIL, s)"
  by (simp add: bsp_i2c0_write_def)

lemma write_shape:
  assumes "\<not> count < 1" and "bsp_i2c0_write d a data count s = Some (r, s')"
  shows "r = BSP_I2C_OK \<and>
    (\<exists>n1 n2 n3 n4 ns ws w.
       length ns = unat count \<and> list_all stop_set ws \<and> \<not> stop_set w \<and>
       s' = s\<lparr>trace := trace s
              @ polled I2C_FLAG_I2CBSY True n1
              @ [Start_on_bus]
              @ polled I2C_FLAG_SBSEND False n2
              @ [Master_addressing (push_bit 1 (ucast a)) I2C_TRANSMITTER]
              @ polled I2C_FLAG_ADDSEND False n3
              @ [Flag_clear I2C_FLAG_ADDSEND]
              @ polled I2C_FLAG_TBE False n4
              @ tx_ops (mem s) data ns
              @ [Stop_on_bus]
              @ stop_polled ws w\<rparr>)"
proof -
  from assms obtain s1 s2 s3 s4 s5 s6 where
    p1: "poll_flag d I2C_FLAG_I2CBSY True s = Some s1" and
    p2: "poll_flag d I2C_FLAG_SBSEND False (i2c_start_on_bus s1) = Some s2" and
    p3: "poll_flag d I2C_FLAG_ADDSEND False
           (i2c_master_addressing (addr_shl1 a) I2C_TRANSMITTER s2) = Some s3" and
    p4: "poll_flag d I2C_FLAG_TBE False (i2c_flag_clear I2C_FLAG_ADDSEND s3) = Some s4" and
    p5: "tx_loop d data count s4 = Some s5" and
    p6: "wait_stop d (i2c_stop_on_bus s5) = Some s6" and
    res: "r = BSP_I2C_OK" "s' = s6"
    by (auto simp: bsp_i2c0_write_def split: bind_splits)
  from poll_flag_trace[OF p1] obtain n1 where
    e1: "s1 = s\<lparr>trace := trace s @ polled I2C_FLAG_I2CBSY True n1\<rparr>" by blast
  from poll_flag_trace[OF p2] obtain n2 where
    e2: "s2 = s1\<lparr>trace := trace s1 @ [Start_on_bus] @ polled I2C_FLAG_SBSEND False n2\<rparr>"
    by (auto simp: i2c_start_on_bus_def emit_def)
  from poll_flag_trace[OF p3] obtain n3 where
    e3: "s3 = s2\<lparr>trace := trace s2 @ [Master_addressing (push_bit 1 (ucast a)) I2C_TRANSMITTER]
                  @ polled I2C_FLAG_ADDSEND False n3\<rparr>"
    by (auto simp: i2c_master_addressing_def emit_def addr_shl1_def)
  from poll_flag_trace[OF p4] obtain n4 where
    e4: "s4 = s3\<lparr>trace := trace s3 @ [Flag_clear I2C_FLAG_ADDSEND] @ polled I2C_FLAG_TBE False n4\<rparr>"
    by (auto simp: i2c_flag_clear_def emit_def)
  from tx_loop_trace[OF p5] obtain ns where
    e5: "length ns = unat count" "s5 = s4\<lparr>trace := trace s4 @ tx_ops (mem s4) data ns\<rparr>"
    by blast
  from wait_stop_trace[OF p6] obtain ws w where
    e6: "s6 = s5\<lparr>trace := trace s5 @ [Stop_on_bus] @ stop_polled ws w\<rparr>"
        "list_all stop_set ws" "\<not> stop_set w"
    by (auto simp: i2c_stop_on_bus_def emit_def)
  have "s' = s\<lparr>trace := trace s
              @ polled I2C_FLAG_I2CBSY True n1
              @ [Start_on_bus]
              @ polled I2C_FLAG_SBSEND False n2
              @ [Master_addressing (push_bit 1 (ucast a)) I2C_TRANSMITTER]
              @ polled I2C_FLAG_ADDSEND False n3
              @ [Flag_clear I2C_FLAG_ADDSEND]
              @ polled I2C_FLAG_TBE False n4
              @ tx_ops (mem s) data ns
              @ [Stop_on_bus]
              @ stop_polled ws w\<rparr>"
    by (simp add: res e1 e2 e3 e4 e5(2) e6(1))
  with res(1) e5(1) e6(2,3) show ?thesis by blast
qed

lemma write_mem: "bsp_i2c0_write d a data count s = Some (r, s') \<Longrightarrow> mem s' = mem s"
proof (cases "count < 1")
  case True
  assume "bsp_i2c0_write d a data count s = Some (r, s')"
  with True show ?thesis by (simp add: write_fail)
next
  case False
  assume "bsp_i2c0_write d a data count s = Some (r, s')"
  from write_shape[OF False this] show ?thesis by auto
qed

lemma write_returns:
  assumes "responsive d" and "\<not> count < 1"
  shows "\<exists>s'. bsp_i2c0_write d a data count s = Some (BSP_I2C_OK, s')"
proof -
  from responsive_busy[OF assms(1)] obtain s1 where
    p1: "poll_flag d I2C_FLAG_I2CBSY True s = Some s1" by blast
  from responsive_flag[OF assms(1)] obtain s2 where
    p2: "poll_flag d I2C_FLAG_SBSEND False (i2c_start_on_bus s1) = Some s2" by blast
  from responsive_flag[OF assms(1)] obtain s3 where
    p3: "poll_flag d I2C_FLAG_ADDSEND False
           (i2c_master_addressing (addr_shl1 a) I2C_TRANSMITTER s2) = Some s3" by blast
  from responsive_flag[OF assms(1)] obtain s4 where
    p4: "poll_flag d I2C_FLAG_TBE False (i2c_flag_clear I2C_FLAG_ADDSEND s3) = Some s4" by blast
  from tx_loop_returns[OF assms(1)] obtain s5 where
    p5: "tx_loop d data count s4 = Some s5" by blast
  from responsive_stop[OF assms(1)] obtain s6 where
    p6: "wait_stop d (i2c_stop_on_bus s5) = Some s6" by blast
  from assms(2) p1 p2 p3 p4 p5 p6 show ?thesis
    by (simp add: bsp_i2c0_write_def)
qed

subsection \<open>Reading\<close>

lemma read_fail: "count < 1 \<Longrightarrow> bsp_i2c0_read d a data count s = Some (BSP_I2C_FAIL, s)"
  by (simp add: bsp_i2c0_read_def)

lemma receive_trace:
  "i2c_data_receive d s = (v, s') \<Longrightarrow> s' = s\<lparr>trace := trace s @ [Data_receive v]\<rparr>"
  by (auto simp: i2c_data_receive_def Let_def emit_def)

lemma rb_one:
  assumes "\<not> count \<ge> 3" and "count \<noteq> 2" and "receive_bytes d data count s = Some s'"
  shows "\<exists>nb m0 v0.
     s' = s\<lparr>trace := trace s @ polled I2C_FLAG_BTC False nb @ polled I2C_FLAG_RBNE False m0
                  @ [Data_receive v0],
             mem := (mem s)(data := v0)\<rparr>"
proof -
  from assms obtain a1 a2 v0 a3 where
    q1: "poll_flag d I2C_FLAG_BTC False s = Some a1" and
    q2: "poll_flag d I2C_FLAG_RBNE False a1 = Some a2" and
    q3: "i2c_data_receive d a2 = (v0, a3)" and
    q4: "s' = a3\<lparr>mem := (mem a3)(data := v0)\<rparr>"
    by (auto simp: receive_bytes_def split: bind_splits prod.splits)
  from poll_flag_trace[OF q1] obtain nb where
    e1: "a1 = s\<lparr>trace := trace s @ polled I2C_FLAG_BTC False nb\<rparr>" by blast
  from poll_flag_trace[OF q2] obtain m0 where
    e2: "a2 = a1\<lparr>trace := trace a1 @ polled I2C_FLAG_RBNE False m0\<rparr>" by blast
  note e3 = receive_trace[OF q3]
  have "s' = s\<lparr>trace := trace s @ polled I2C_FLAG_BTC False nb @ polled I2C_FLAG_RBNE False m0
                  @ [Data_receive v0],
             mem := (mem s)(data := v0)\<rparr>"
    by (simp add: q4 e3 e2 e1)
  then show ?thesis by blast
qed

lemma rb_two:
  assumes "receive_bytes d data 2 s = Some s'"
  shows "\<exists>nb m0 v0 m1 v1.
     s' = s\<lparr>trace := trace s @ polled I2C_FLAG_BTC False nb @ polled I2C_FLAG_RBNE False m0
                  @ [Data_receive v0] @ polled I2C_FLAG_RBNE False m1 @ [Data_receive v1],
             mem := (mem s)(data := v0, data + 1 := v1)\<rparr>"
proof -
  from assms obtain a1 a2 v0 a3 a4 v1 a5 where
    q1: "poll_flag d I2C_FLAG_BTC False s = Some a1" and
    q2: "poll_flag d I2C_FLAG_RBNE False a1 = Some a2" and
    q3: "i2c_data_receive d a2 = (v0, a3)" and
    q4: "poll_flag d I2C_FLAG_RBNE False (a3\<lparr>mem := (mem a3)(data := v0)\<rparr>) = Some a4" and
    q5: "i2c_data_receive d a4 = (v1, a5)" and
    q6: "s' = a5\<lparr>mem := (mem a5)(data + 1 := v1)\<rparr>"
    by (auto simp: receive_bytes_def split: bind_splits prod.splits)
  from poll_flag_trace[OF q1] obtain nb where
    e1: "a1 = s\<lparr>trace := trace s @ polled I2C_FLAG_BTC False nb\<rparr>" by blast
  from poll_flag_trace[OF q2] obtain m0 where
    e2: "a2 = a1\<lparr>trace := trace a1 @ polled I2C_FLAG_RBNE False m0\<rparr>" by blast
  note e3 = receive_trace[OF q3]
  from poll_flag_trace[OF q4] obtain m1 where
    e4: "a4 = a3\<lparr>mem := (mem a3)(data := v0), trace := trace a3 @ polled I2C_FLAG_RBNE False m1\<rparr>"
    by auto
  note e5 = receive_trace[OF q5]
  have "s' = s\<lparr>trace := trace s @ polled I2C_FLAG_BTC False nb @ polled I2C_FLAG_RBNE False m0
                  @ [Data_receive v0] @ polled I2C_FLAG_RBNE False m1 @ [Data_receive v1],
             mem := (mem s)(data := v0, data + 1 := v1)\<rparr>"
    by (simp add: q6 e5 e4 e3 e2 e1)
  then show ?thesis by blast
qed

lemma rb_three:
  assumes "receive_bytes d data 3 s = Some s'"
  shows "\<exists>nb m0 v0 m1 v1 m2 v2.
     s' = s\<lparr>trace := trace s
                  @ polled I2C_FLAG_BTC False nb @ [Ack_config I2C_ACK_DISABLE]
                  @ polled I2C_FLAG_RBNE False m0 @ [Data_receive v0]
                  @ polled I2C_FLAG_RBNE False m1 @ [Data_receive v1]
                  @ polled I2C_FLAG_RBNE False m2 @ [Data_receive v2],
             mem := (mem s)(data := v0, data + 1 := v1, data + 2 := v2)\<rparr>"
proof -
  from assms have r0: "rx_loop d data 3 0 s = Some s'"
    by (simp add: receive_bytes_def)
  from rx_loop_step[OF _ r0] obtain nb m0 v0 where
    r1: "rx_loop d data 3 1
           (s\<lparr>trace := trace s @ polled I2C_FLAG_BTC False nb @ [Ack_config I2C_ACK_DISABLE]
                   @ polled I2C_FLAG_RBNE False m0 @ [Data_receive v0],
               mem := (mem s)(data := v0)\<rparr>) = Some s'"
    by auto
  from rx_loop_step[OF _ r1] obtain m1 v1 where
    r2: "rx_loop d data 3 2
           (s\<lparr>trace := trace s @ polled I2C_FLAG_BTC False nb @ [Ack_config I2C_ACK_DISABLE]
                   @ polled I2C_FLAG_RBNE False m0 @ [Data_receive v0]
                   @ polled I2C_FLAG_RBNE False m1 @ [Data_receive v1],
               mem := (mem s)(data := v0, data + 1 := v1)\<rparr>) = Some s'"
    by auto
  from rx_loop_step[OF _ r2] obtain m2 v2 where
    r3: "rx_loop d data 3 3
           (s\<lparr>trace := trace s @ polled I2C_FLAG_BTC False nb @ [Ack_config I2C_ACK_DISABLE]
                   @ polled I2C_FLAG_RBNE False m0 @ [Data_receive v0]
                   @ polled I2C_FLAG_RBNE False m1 @ [Data_receive v1]
                   @ polled I2C_FLAG_RBNE False m2 @ [Data_receive v2],
               mem := (mem s)(data := v0, data + 1 := v1, data + 2 := v2)\<rparr>) = Some s'"
    by auto
  from rx_loop_done[OF _ r3] have
    "s' = s\<lparr>trace := trace s
                  @ polled I2C_FLAG_BTC False nb @ [Ack_config I2C_ACK_DISABLE]
                  @ polled I2C_FLAG_RBNE False m0 @ [Data_receive v0]
                  @ polled I2C_FLAG_RBNE False m1 @ [Data_receive v1]
                  @ polled I2C_FLAG_RBNE False m2 @ [Data_receive v2],
             mem := (mem s)(data := v0, data + 1 := v1, data + 2 := v2)\<rparr>"
    by simp
  then show ?thesis by blast
qed

lemma rb_last:
  assumes "receive_bytes d data count s = Some s'"
  shows "\<exists>pre v. trace s' = trace s @ pre @ [Data_receive v]"
proof -
  consider (many) "count \<ge> 3" | (two) "count = 2" | (one) "\<not> count \<ge> 3" "count \<noteq> 2"
    by blast
  then show ?thesis
  proof cases
    case many
    then have "3 \<le> uint count" by (simp add: word_le_def)
    then have lt: "0 < uint count" by simp
    from many assms have "rx_loop d data count 0 s = Some s'"
      by (simp add: receive_bytes_def)
    from rx_loop_last[OF lt this] show ?thesis .
  next
    case two
    from rb_two[OF assms[unfolded two]] obtain nb m0 v0 m1 v1 where
      "s' = s\<lparr>trace := trace s @ polled I2C_FLAG_BTC False nb @ polled I2C_FLAG_RBNE False m0
                  @ [Data_receive v0] @ polled I2C_FLAG_RBNE False m1 @ [Data_receive v1],
             mem := (mem s)(data := v0, data + 1 := v1)\<rparr>"
      by blast
    then have "trace s' = trace s @ (polled I2C_FLAG_BTC False nb @ polled I2C_FLAG_RBNE False m0
                  @ [Data_receive v0] @ polled I2C_FLAG_RBNE False m1) @ [Data_receive v1]"
      by simp
    then show ?thesis by blast
  next
    case one
    from rb_one[OF one assms] obtain nb m0 v0 where
      "s' = s\<lparr>trace := trace s @ polled I2C_FLAG_BTC False nb @ polled I2C_FLAG_RBNE False m0
                  @ [Data_receive v0],
             mem := (mem s)(data := v0)\<rparr>"
      by blast
    then have "trace s' = trace s @ (polled I2C_FLAG_BTC False nb @ polled I2C_FLAG_RBNE False m0)
                  @ [Data_receive v0]"
      by simp
    then show ?thesis by blast
  qed
qed

lemma rb_frame:
  assumes "receive_bytes d data count s = Some s'" and "\<not> count < 1"
    and "\<forall>k<unat count. x \<noteq> data + of_nat k"
  shows "mem s' x = mem s x"
proof -
  consider (many) "count \<ge> 3" | (two) "count = 2" | (one) "\<not> count \<ge> 3" "count \<noteq> 2"
    by blast
  then show ?thesis
  proof cases
    case many
    from many assms(1) have r: "rx_loop d data count 0 s = Some s'"
      by (simp add: receive_bytes_def)
    from assms(3) have "\<forall>k. nat 0 \<le> k \<and> k < unat count \<longrightarrow> x \<noteq> data + of_nat k"
      by simp
    from rx_loop_frame[OF _ r this] show ?thesis by simp
  next
    case two
    from two have "0 < unat count" "1 < unat count" by simp_all
    with assms(3) have "x \<noteq> data + of_nat 0" "x \<noteq> data + of_nat 1"
      by blast+
    then have ne: "x \<noteq> data" "x \<noteq> data + 1" by simp_all
    from rb_two[OF assms(1)[unfolded two]] obtain nb m0 v0 m1 v1 where
      "s' = s\<lparr>trace := trace s @ polled I2C_FLAG_BTC False nb @ polled I2C_FLAG_RBNE False m0
                  @ [Data_receive v0] @ polled I2C_FLAG_RBNE False m1 @ [Data_receive v1],
             mem := (mem s)(data := v0, data + 1 := v1)\<rparr>"
      by blast
    with ne show ?thesis by simp
  next
    case one
    from assms(2) have "0 < unat count" by (simp add: word_less_nat_alt not_less)
    with assms(3) have "x \<noteq> data + of_nat 0" by blast
    then have ne: "x \<noteq> data" by simp
    from rb_one[OF one assms(1)] obtain nb m0 v0 where
      "s' = s\<lparr>trace := trace s @ polled I2C_FLAG_BTC False nb @ polled I2C_FLAG_RBNE False m0
                  @ [Data_receive v0],
             mem := (mem s)(data := v0)\<rparr>"
      by blast
    with ne show ?thesis by simp
  qed
qed

lemma rb_returns:
  assumes "responsive d"
  shows "\<exists>s'. receive_bytes d data count s = Some s'"
proof -
  from responsive_flag[OF assms] obtain a1 where
    q1: "poll_flag d I2C_FLAG_BTC False s = Some a1" by blast
  from responsive_flag[OF assms] obtain a2 where
    q2: "poll_flag d I2C_FLAG_RBNE False a1 = Some a2" by blast
  obtain v0 a3 where q3: "i2c_data_receive d a2 = (v0, a3)"
    by (cases "i2c_data_receive d a2")
  from responsive_flag[OF assms] obtain a4 where
    q4: "poll_flag d I2C_FLAG_RBNE False (a3\<lparr>mem := (mem a3)(data := v0)\<rparr>) = Some a4" by blast
  obtain v1 a5 where q5: "i2c_data_receive d a4 = (v1, a5)"
    by (cases "i2c_data_receive d a4")
  from rx_loop_returns[OF assms] obtain t where q6: "rx_loop d data count 0 s = Some t"
    by blast
  show ?thesis
    by (simp add: receive_bytes_def q1 q2 q3 q4 q5 q6)
qed

lemma read_shape:
  assumes "\<not> count < 1" and "bsp_i2c0_read d a data count s = Some (r, s')"
  shows "r = BSP_I2C_OK \<and>
    (\<exists>n1 n2 n3 s5 ws w.
       receive_bytes d data count
         (s\<lparr>trace := trace s
              @ [Ackpos_config I2C_ACKPOS_NEXT]
              @ polled I2C_FLAG_I2CBSY True n1
              @ [Start_on_bus]
              @ polled I2C_FLAG_SBSEND False n2
              @ [Master_addressing (push_bit 1 (ucast a)) I2C_RECEIVER]
              @ polled I2C_FLAG_ADDSEND False n3
              @ [Flag_clear I2C_FLAG_ADDSEND]\<rparr>) = Some s5 \<and>
       list_all stop_set ws \<and> \<not> stop_set w \<and>
       s' = s5\<lparr>trace := trace s5 @ [Stop_on_bus] @ stop_polled ws w
                   @ [Ackpos_config I2C_ACKPOS_CURRENT, Ack_config I2C_ACK_ENABLE]\<rparr>)"
proof -
  from assms obtain s1 s2 s3 s5 s6 where
    p1: "poll_flag d I2C_FLAG_I2CBSY True (i2c_ackpos_config I2C_ACKPOS_NEXT s) = Some s1" and
    p2: "poll_flag d I2C_FLAG_SBSEND False (i2c_start_on_bus s1) = Some s2" and
    p3: "poll_flag d I2C_FLAG_ADDSEND False
           (i2c_master_addressing (addr_shl1 a) I2C_RECEIVER s2) = Some s3" and
    p5: "receive_bytes d data count (i2c_flag_clear I2C_FLAG_ADDSEND s3) = Some s5" and
    p6: "wait_stop d (i2c_stop_on_bus s5) = Some s6" and
    res: "r = BSP_I2C_OK"
      "s' = i2c_ack_config I2C_ACK_ENABLE (i2c_ackpos_config I2C_ACKPOS_CURRENT s6)"
    by (auto simp: bsp_i2c0_read_def split: bind_splits)
  from poll_flag_trace[OF p1] obtain n1 where
    e1: "s1 = s\<lparr>trace := trace s @ [Ackpos_config I2C_ACKPOS_NEXT]
                  @ polled I2C_FLAG_I2CBSY True n1\<rparr>"
    by (auto simp: i2c_ackpos_config_def emit_def)
  from poll_flag_trace[OF p2] obtain n2 where
    e2: "s2 = s1\<lparr>trace := trace s1 @ [Start_on_bus] @ polled I2C_FLAG_SBSEND False n2\<rparr>"
    by (auto simp: i2c_start_on_bus_def emit_def)
  from poll_flag_trace[OF p3] obtain n3 where
    e3: "s3 = s2\<lparr>trace := trace s2 @ [Master_addressing (push_bit 1 (ucast a)) I2C_RECEIVER]
                  @ polled I2C_FLAG_ADDSEND False n3\<rparr>"
    by (auto simp: i2c_master_addressing_def emit_def addr_shl1_def)
  from wait_stop_trace[OF p6] obtain ws w where
    e6: "s6 = s5\<lparr>trace := trace s5 @ [Stop_on_bus] @ stop_polled ws w\<rparr>"
        "list_all stop_set ws" "\<not> stop_set w"
    by (auto simp: i2c_stop_on_bus_def emit_def)
  have e4: "i2c_flag_clear I2C_FLAG_ADDSEND s3 =
      s\<lparr>trace := trace s
              @ [Ackpos_config I2C_ACKPOS_NEXT]
              @ polled I2C_FLAG_I2CBSY True n1
              @ [Start_on_bus]
              @ polled I2C_FLAG_SBSEND False n2
              @ [Master_addressing (push_bit 1 (ucast a)) I2C_RECEIVER]
              @ polled I2C_FLAG_ADDSEND False n3
              @ [Flag_clear I2C_FLAG_ADDSEND]\<rparr>"
    by (simp add: e1 e2 e3 i2c_flag_clear_def emit_def)
  have e7: "s' = s5\<lparr>trace := trace s5 @ [Stop_on_bus] @ stop_polled ws w
                   @ [Ackpos_config I2C_ACKPOS_CURRENT, Ack_config I2C_ACK_ENABLE]\<rparr>"
    by (simp add: res(2) e6(1) i2c_ack_config_def i2c_ackpos_config_def emit_def)
  from p5[unfolded e4] e6(2,3) e7 res(1) show ?thesis by blast
qed

lemma read_returns:
  assumes "responsive d" and "\<not> count < 1"
  shows "\<exists>s'. bsp_i2c0_read d a data count s = Some (BSP_I2C_OK, s')"
proof -
  from responsive_busy[OF assms(1)] obtain s1 where
    p1: "poll_flag d I2C_FLAG_I2CBSY True (i2c_ackpos_config I2C_ACKPOS_NEXT s) = Some s1"
    by blast
  from responsive_flag[OF assms(1)] obtain s2 where
    p2: "poll_flag d I2C_FLAG_SBSEND False (i2c_start_on_bus s1) = Some s2" by blast
  from responsive_flag[OF assms(1)] obtain s3 where
    p3: "poll_flag d I2C_FLAG_ADDSEND False
           (i2c_master_addressing (addr_shl1 a) I2C_RECEIVER s2) = Some s3" by blast
  from rb_returns[OF assms(1)] obtain s5 where
    p5: "receive_bytes d data count (i2c_flag_clear I2C_FLAG_ADDSEND s3) = Some s5" by blast
  from responsive_stop[OF assms(1)] obtain s6 where
    p6: "wait_stop d (i2c_stop_on_bus s5) = Some s6" by blast
  from assms(2) p1 p2 p3 p5 p6 show ?thesis
    by (simp add: bsp_i2c0_read_def)
qed

lemma read_frame:
  assumes "bsp_i2c0_read d a data count s = Some (r, s')"
    and "\<forall>k<unat count. x \<noteq> data + of_nat k"
  shows "mem s' x = mem s x"
proof (cases "count < 1")
  case True
  with assms(1) show ?thesis by (simp add: read_fail)
next
  case False
  from read_shape[OF False assms(1)] obtain t s5 u where
    rb: "receive_bytes d data count (s\<lparr>trace := t\<rparr>) = Some s5" and s': "s' = s5\<lparr>trace := u\<rparr>"
    by blast
  from rb_frame[OF rb False assms(2)] s' show ?thesis by simp
qed

lemma ack_setting_last: "ack_setting (t @ [Ack_config x]) = Some x"
  by (simp add: ack_setting_def)

lemma ackpos_setting_last: "ackpos_setting (t @ [Ackpos_config p, Ack_config x]) = Some p"
  by (simp add: ackpos_setting_def)

subsection \<open>Register write and register read\<close>

lemma reg8_write_delegates:
  "bsp_i2c0_reg8_write d txbuffer a reg v s =
     map_option (\<lambda>(r, s'). (BSP_I2C_OK, s'))
       (bsp_i2c0_write d a txbuffer 2 (s\<lparr>mem := (mem s)(txbuffer := reg, txbuffer + 1 := v)\<rparr>))"
  by (cases "bsp_i2c0_write d a txbuffer 2 (s\<lparr>mem := (mem s)(txbuffer := reg, txbuffer + 1 := v)\<rparr>)")
     (auto simp: bsp_i2c0_reg8_write_def)

lemma reg8_write_inner:
  assumes "bsp_i2c0_reg8_write d txbuffer a reg v s = Some (r, s')"
  shows "r = BSP_I2C_OK \<and>
    (\<exists>r'. bsp_i2c0_write d a txbuffer 2
              (s\<lparr>mem := (mem s)(txbuffer := reg, txbuffer + 1 := v)\<rparr>) = Some (r', s'))"
  using assms by (auto simp: bsp_i2c0_reg8_write_def split: bind_splits)

lemma reg8_read_inner:
  assumes "bsp_i2c0_reg8_read d a reg val s = Some (r, s')"
  shows "r = BSP_I2C_OK \<and>
    (\<exists>r1 s1 r2. bsp_i2c0_write d a (ucast reg) 1 s = Some (r1, s1) \<and>
                 bsp_i2c0_read d a val 1 s1 = Some (r2, s'))"
  using assms by (auto simp: bsp_i2c0_reg8_read_def split: bind_splits)

lemma reg8_write_returns:
  assumes "responsive d"
  shows "\<exists>s'. bsp_i2c0_reg8_write d txbuffer a reg v s = Some (BSP_I2C_OK, s')"
proof -
  have "\<not> (2 :: uint8_t) < 1" by simp
  from write_returns[OF assms this] obtain s' where
    "bsp_i2c0_write d a txbuffer 2 (s\<lparr>mem := (mem s)(txbuffer := reg, txbuffer + 1 := v)\<rparr>)
       = Some (BSP_I2C_OK, s')" by blast
  then show ?thesis by (simp add: bsp_i2c0_reg8_write_def)
qed

lemma reg8_read_returns:
  assumes "responsive d"
  shows "\<exists>s'. bsp_i2c0_reg8_read d a reg val s = Some (BSP_I2C_OK, s')"
proof -
  have one: "\<not> (1 :: uint8_t) < 1" by simp
  from write_returns[OF assms one] obtain s1 where
    w: "bsp_i2c0_write d a (ucast reg) 1 s = Some (BSP_I2C_OK, s1)" by blast
  from read_returns[OF assms one] obtain s2 where
    "bsp_i2c0_read d a val 1 s1 = Some (BSP_I2C_OK, s2)" by blast
  with w show ?thesis by (simp add: bsp_i2c0_reg8_read_def)
qed

lemma reg8_write_frame:
  assumes "bsp_i2c0_reg8_write d txbuffer a reg v s = Some (r, s')"
    and "x \<noteq> txbuffer" and "x \<noteq> txbuffer + 1"
  shows "mem s' x = mem s x"
proof -
  from reg8_write_inner[OF assms(1)] obtain r' where
    "bsp_i2c0_write d a txbuffer 2
       (s\<lparr>mem := (mem s)(txbuffer := reg, txbuffer + 1 := v)\<rparr>) = Some (r', s')" by blast
  from write_mem[OF this] assms(2,3) show ?thesis by simp
qed

lemma reg8_read_frame:
  assumes "bsp_i2c0_reg8_read d a reg val s = Some (r, s')" and "x \<noteq> val"
  shows "mem s' x = mem s x"
proof -
  from reg8_read_inner[OF assms(1)] obtain r1 s1 r2 where
    w: "bsp_i2c0_write d a (ucast reg) 1 s = Some (r1, s1)" and
    rd: "bsp_i2c0_read d a val 1 s1 = Some (r2, s')" by blast
  from assms(2) have "\<forall>k<unat (1 :: uint8_t). x \<noteq> val + of_nat k" by simp
  from read_frame[OF rd this] write_mem[OF w] show ?thesis by simp
qed

subsection \<open>Runs against the two peripherals\<close>

lemma responsive_ready_dev: "responsive ready_dev"
  unfolding responsive_def
proof (intro conjI allI impI)
  fix h
  show "\<exists>n. \<not> flag_resp ready_dev (flag_polls ready_dev I2C_FLAG_I2CBSY h n) I2C_FLAG_I2CBSY"
    by (rule exI[of _ 0]) (simp add: ready_dev_def)
next
  fix h f assume "f \<noteq> I2C_FLAG_I2CBSY"
  then show "\<exists>n. flag_resp ready_dev (flag_polls ready_dev f h n) f"
    by (intro exI[of _ 0]) (simp add: ready_dev_def)
next
  fix h
  show "\<exists>n. \<not> stop_set (ctl0_resp ready_dev (ctl0_polls ready_dev h n))"
    by (rule exI[of _ 0]) (simp add: ready_dev_def stop_set_def)
qed

lemma responsive_slow_dev: "responsive slow_dev"
  unfolding responsive_def
proof (intro conjI allI impI)
  fix h
  show "\<exists>n. \<not> flag_resp slow_dev (flag_polls slow_dev I2C_FLAG_I2CBSY h n) I2C_FLAG_I2CBSY"
    by (cases "flag_resp slow_dev h I2C_FLAG_I2CBSY")
       (rule exI[of _ 1], simp add: slow_dev_def, rule exI[of _ 0], simp)
next
  fix h f assume "f \<noteq> I2C_FLAG_I2CBSY"
  then show "\<exists>n. flag_resp slow_dev (flag_polls slow_dev f h n) f"
    by (cases "flag_resp slow_dev h f")
       (rule exI[of _ 0], simp, rule exI[of _ 1], simp add: slow_dev_def)
next
  fix h
  show "\<exists>n. \<not> stop_set (ctl0_resp slow_dev (ctl0_polls slow_dev h n))"
    by (cases "stop_set (ctl0_resp slow_dev h)")
       (rule exI[of _ 1], simp add: slow_dev_def stop_set_def split: if_splits, rule exI[of _ 0], simp)
qed

lemma is_some: "\<not> Option.is_none x \<Longrightarrow> \<exists>r s'. x = Some (r, s')"
  by (cases x) (auto simp: Option.is_none_def)

lemma write_runs: "\<not> Option.is_none (bsp_i2c0_write slow_dev 0x50 2 3 s0)"
  by code_simp

lemma read_runs: "\<not> Option.is_none (bsp_i2c0_read slow_dev 0x50 2 4 s0)"
  by code_simp

lemma read3_runs: "\<not> Option.is_none (bsp_i2c0_read slow_dev 0x50 2 3 s0)"
  by code_simp

lemma reg8_write_runs: "\<not> Option.is_none (bsp_i2c0_reg8_write slow_dev 0x100 0x50 5 0x77 s0)"
  by code_simp

lemma reg8_read_runs: "\<not> Option.is_none (bsp_i2c0_reg8_read slow_dev 0x50 5 2 s0)"
  by code_simp

section \<open>Properties of the driver\<close>

text \<open>
  C1: \<^verbatim>\<open>bsp_i2c0_reg8_read\<close> is to transmit the register index \<open>reg\<close> in a one-byte
  write and then to read one byte into \<^verbatim>\<open>*value\<close>. The code passes
  \<^verbatim>\<open>(uint8_t*)reg\<close> as the buffer of the write, so the byte it transmits is the one
  stored at address \<open>reg\<close>. Here \<open>reg\<close> is 5 and the store holds \<open>0xAA\<close> at
  address 5: the write transaction transmits \<open>0xAA\<close>, not 5. The read that follows
  receives one byte and stores it at \<open>value\<close> (address 2).
\<close>

theorem reg8_read_transmits_stored_byte:
  "map_option (\<lambda>(r, s'). (r, trace s', mem s' 2))
     (bsp_i2c0_reg8_read ready_dev 0x50 5 2 s0) =
   Some (BSP_I2C_OK,
     [Flag_get I2C_FLAG_I2CBSY False, Start_on_bus,
      Flag_get I2C_FLAG_SBSEND True, Master_addressing 0xA0 I2C_TRANSMITTER,
      Flag_get I2C_FLAG_ADDSEND True, Flag_clear I2C_FLAG_ADDSEND,
      Flag_get I2C_FLAG_TBE True, Data_transmit 0xAA,
      Flag_get I2C_FLAG_TBE True, Stop_on_bus, Ctl0_read 0,
      Ackpos_config I2C_ACKPOS_NEXT, Flag_get I2C_FLAG_I2CBSY False,
      Start_on_bus, Flag_get I2C_FLAG_SBSEND True,
      Master_addressing 0xA0 I2C_RECEIVER, Flag_get I2C_FLAG_ADDSEND True,
      Flag_clear I2C_FLAG_ADDSEND, Flag_get I2C_FLAG_BTC True,
      Flag_get I2C_FLAG_RBNE True, Data_receive 20, Stop_on_bus, Ctl0_read 0,
      Ackpos_config I2C_ACKPOS_CURRENT, Ack_config I2C_ACK_ENABLE],
     20)"
  by code_simp

text \<open>
  C2: the receive path of \<^verbatim>\<open>bsp_i2c0_read\<close> is to receive \<open>count\<close> bytes, each
  after a poll of receive-buffer-not-empty, and to disable ACK exactly once. With a count
  of 1 and with a count of 2 the code receives the bytes so, but never disables ACK: the
  only ACK access of the call is the enable at its end.
\<close>

theorem read_short_never_disables_ack:
  "map_option (\<lambda>(r, s'). (r, trace s', Ack_config I2C_ACK_DISABLE \<in> set (trace s')))
     (bsp_i2c0_read ready_dev 0x50 2 1 s0) =
   Some (BSP_I2C_OK,
     [Ackpos_config I2C_ACKPOS_NEXT, Flag_get I2C_FLAG_I2CBSY False,
      Start_on_bus, Flag_get I2C_FLAG_SBSEND True,
      Master_addressing 0xA0 I2C_RECEIVER, Flag_get I2C_FLAG_ADDSEND True,
      Flag_clear I2C_FLAG_ADDSEND, Flag_get I2C_FLAG_BTC True,
      Flag_get I2C_FLAG_RBNE True, Data_receive 9, Stop_on_bus, Ctl0_read 0,
      Ackpos_config I2C_ACKPOS_CURRENT, Ack_config I2C_ACK_ENABLE],
     False) \<and>
   map_option (\<lambda>(r, s'). (r, trace s', Ack_config I2C_ACK_DISABLE \<in> set (trace s')))
     (bsp_i2c0_read ready_dev 0x50 2 2 s0) =
   Some (BSP_I2C_OK,
     [Ackpos_config I2C_ACKPOS_NEXT, Flag_get I2C_FLAG_I2CBSY False,
      Start_on_bus, Flag_get I2C_FLAG_SBSEND True,
      Master_addressing 0xA0 I2C_RECEIVER, Flag_get I2C_FLAG_ADDSEND True,
      Flag_clear I2C_FLAG_ADDSEND, Flag_get I2C_FLAG_BTC True,
      Flag_get I2C_FLAG_RBNE True, Data_receive 9,
      Flag_get I2C_FLAG_RBNE True, Data_receive 11, Stop_on_bus, Ctl0_read 0,
      Ackpos_config I2C_ACKPOS_CURRENT, Ack_config I2C_ACK_ENABLE],
     False)"
  by code_simp

text \<open>
  C3: \<^verbatim>\<open>bsp_i2c0_write\<close> and \<^verbatim>\<open>bsp_i2c0_read\<close> return FAIL exactly when
  \<open>count < 1\<close>, and then they return at once: no hardware access is made and no byte
  is stored, the state is the one they were called in. With any other count the status
  they return is OK, and they do return when the peripheral answers every poll in the
  end (the polling loops have no timeout).
\<close>

theorem fail_iff_zero_count:
  "(count < 1 \<longrightarrow>
      bsp_i2c0_write d a data count s = Some (BSP_I2C_FAIL, s) \<and>
      bsp_i2c0_read d a data count s = Some (BSP_I2C_FAIL, s)) \<and>
   (\<not> count < 1 \<longrightarrow>
      (\<forall>r s'. bsp_i2c0_write d a data count s = Some (r, s') \<longrightarrow> r = BSP_I2C_OK) \<and>
      (\<forall>r s'. bsp_i2c0_read d a data count s = Some (r, s') \<longrightarrow> r = BSP_I2C_OK) \<and>
      (responsive d \<longrightarrow>
         (\<exists>s'. bsp_i2c0_write d a data count s = Some (BSP_I2C_OK, s')) \<and>
         (\<exists>s'. bsp_i2c0_read d a data count s = Some (BSP_I2C_OK, s'))))"
proof (intro conjI impI allI)
  assume "count < 1"
  then show "bsp_i2c0_write d a data count s = Some (BSP_I2C_FAIL, s)" by (rule write_fail)
next
  assume "count < 1"
  then show "bsp_i2c0_read d a data count s = Some (BSP_I2C_FAIL, s)" by (rule read_fail)
next
  fix r s' assume "\<not> count < 1" "bsp_i2c0_write d a data count s = Some (r, s')"
  from write_shape[OF this] show "r = BSP_I2C_OK" by blast
next
  fix r s' assume "\<not> count < 1" "bsp_i2c0_read d a data count s = Some (r, s')"
  from read_shape[OF this] show "r = BSP_I2C_OK" by blast
next
  assume "\<not> count < 1" "responsive d"
  then show "\<exists>s'. bsp_i2c0_write d a data count s = Some (BSP_I2C_OK, s')"
    by (intro write_returns)
next
  assume "\<not> count < 1" "responsive d"
  then show "\<exists>s'. bsp_i2c0_read d a data count s = Some (BSP_I2C_OK, s')"
    by (intro read_returns)
qed

theorem fail_iff_zero_count_witness:
  "(0 :: uint8_t) < 1 \<and>
   bsp_i2c0_write slow_dev 0x50 2 0 s0 = Some (BSP_I2C_FAIL, s0) \<and>
   bsp_i2c0_read slow_dev 0x50 2 0 s0 = Some (BSP_I2C_FAIL, s0) \<and>
   \<not> (3 :: uint8_t) < 1 \<and> responsive slow_dev \<and>
   (\<exists>s'. bsp_i2c0_write slow_dev 0x50 2 3 s0 = Some (BSP_I2C_OK, s')) \<and>
   (\<exists>s'. bsp_i2c0_read slow_dev 0x50 2 3 s0 = Some (BSP_I2C_OK, s'))"
proof -
  have z: "(0 :: uint8_t) < 1" and t: "\<not> (3 :: uint8_t) < 1" by simp_all
  from fail_iff_zero_count[of 0 slow_dev "0x50" 2 s0] z
    fail_iff_zero_count[of 3 slow_dev "0x50" 2 s0] t responsive_slow_dev
  show ?thesis by blast
qed

text \<open>
  C4: \<^verbatim>\<open>bsp_i2c0_reg8_write\<close> and \<^verbatim>\<open>bsp_i2c0_reg8_read\<close> never report anything
  but OK: the status of a call that returns is OK whatever its arguments are, the status
  of the inner calls is dropped, and the calls do return when the peripheral answers
  every poll in the end.
\<close>

theorem composites_report_ok:
  "(bsp_i2c0_reg8_write d txbuffer a reg v s = Some (r, s') \<longrightarrow> r = BSP_I2C_OK) \<and>
   (bsp_i2c0_reg8_read d a reg val s = Some (r8, s8) \<longrightarrow> r8 = BSP_I2C_OK) \<and>
   (responsive d \<longrightarrow>
      (\<exists>s'. bsp_i2c0_reg8_write d txbuffer a reg v s = Some (BSP_I2C_OK, s')) \<and>
      (\<exists>s'. bsp_i2c0_reg8_read d a reg val s = Some (BSP_I2C_OK, s')))"
proof (intro conjI impI)
  assume "bsp_i2c0_reg8_write d txbuffer a reg v s = Some (r, s')"
  from reg8_write_inner[OF this] show "r = BSP_I2C_OK" by blast
next
  assume "bsp_i2c0_reg8_read d a reg val s = Some (r8, s8)"
  from reg8_read_inner[OF this] show "r8 = BSP_I2C_OK" by blast
next
  assume "responsive d"
  then show "\<exists>s'. bsp_i2c0_reg8_write d txbuffer a reg v s = Some (BSP_I2C_OK, s')"
    by (rule reg8_write_returns)
next
  assume "responsive d"
  then show "\<exists>s'. bsp_i2c0_reg8_read d a reg val s = Some (BSP_I2C_OK, s')"
    by (rule reg8_read_returns)
qed

theorem composites_report_ok_witness:
  "responsive slow_dev \<and>
   (\<exists>s'. bsp_i2c0_reg8_write slow_dev 0x100 0x50 5 0x77 s0 = Some (BSP_I2C_OK, s')) \<and>
   (\<exists>s'. bsp_i2c0_reg8_read slow_dev 0x50 5 2 s0 = Some (BSP_I2C_OK, s'))"
  using composites_report_ok[of slow_dev "0x100" "0x50" 5 "0x77" s0 _ _ 2] responsive_slow_dev
  by blast

text \<open>
  C5: \<^verbatim>\<open>bsp_i2c0_reg8_write\<close> makes one call of \<^verbatim>\<open>bsp_i2c0_write\<close>, with
  count 2 and a buffer that holds \<open>reg\<close> and then \<open>val\<close>: its result is that call's,
  with the status replaced by OK, and the hardware accesses of a call that returns are
  those of a single write transaction that transmits \<open>reg\<close> and then \<open>val\<close>.
\<close>

theorem reg8_write_one_write:
  "mem (s\<lparr>mem := (mem s)(txbuffer := reg, txbuffer + 1 := v)\<rparr>) txbuffer = reg \<and>
   mem (s\<lparr>mem := (mem s)(txbuffer := reg, txbuffer + 1 := v)\<rparr>) (txbuffer + 1) = v \<and>
   bsp_i2c0_reg8_write d txbuffer a reg v s =
     map_option (\<lambda>(r, s'). (BSP_I2C_OK, s'))
       (bsp_i2c0_write d a txbuffer 2 (s\<lparr>mem := (mem s)(txbuffer := reg, txbuffer + 1 := v)\<rparr>)) \<and>
   (bsp_i2c0_reg8_write d txbuffer a reg v s = Some (r, s') \<longrightarrow>
      (\<exists>n1 n2 n3 n4 n5 n6 ws w.
         list_all stop_set ws \<and> \<not> stop_set w \<and>
         trace s' = trace s
              @ polled I2C_FLAG_I2CBSY True n1
              @ [Start_on_bus]
              @ polled I2C_FLAG_SBSEND False n2
              @ [Master_addressing (push_bit 1 (ucast a)) I2C_TRANSMITTER]
              @ polled I2C_FLAG_ADDSEND False n3
              @ [Flag_clear I2C_FLAG_ADDSEND]
              @ polled I2C_FLAG_TBE False n4
              @ [Data_transmit reg] @ polled I2C_FLAG_TBE False n5
              @ [Data_transmit v] @ polled I2C_FLAG_TBE False n6
              @ [Stop_on_bus]
              @ stop_polled ws w))"
proof (intro conjI impI)
  show "mem (s\<lparr>mem := (mem s)(txbuffer := reg, txbuffer + 1 := v)\<rparr>) txbuffer = reg"
    by simp
  show "mem (s\<lparr>mem := (mem s)(txbuffer := reg, txbuffer + 1 := v)\<rparr>) (txbuffer + 1) = v"
    by simp
  show "bsp_i2c0_reg8_write d txbuffer a reg v s =
     map_option (\<lambda>(r, s'). (BSP_I2C_OK, s'))
       (bsp_i2c0_write d a txbuffer 2 (s\<lparr>mem := (mem s)(txbuffer := reg, txbuffer + 1 := v)\<rparr>))"
    by (rule reg8_write_delegates)
next
  assume "bsp_i2c0_reg8_write d txbuffer a reg v s = Some (r, s')"
  from reg8_write_inner[OF this] obtain r' where
    w: "bsp_i2c0_write d a txbuffer 2
          (s\<lparr>mem := (mem s)(txbuffer := reg, txbuffer + 1 := v)\<rparr>) = Some (r', s')"
    (is "bsp_i2c0_write _ _ _ _ ?b = _")
    by blast
  have two: "\<not> (2 :: uint8_t) < 1" by simp
  from write_shape[OF two w] obtain n1 n2 n3 n4 ns ws w where
    len: "length ns = unat (2 :: uint8_t)" and stop: "list_all stop_set ws" "\<not> stop_set w" and
    s': "s' = ?b\<lparr>trace := trace ?b
              @ polled I2C_FLAG_I2CBSY True n1
              @ [Start_on_bus]
              @ polled I2C_FLAG_SBSEND False n2
              @ [Master_addressing (push_bit 1 (ucast a)) I2C_TRANSMITTER]
              @ polled I2C_FLAG_ADDSEND False n3
              @ [Flag_clear I2C_FLAG_ADDSEND]
              @ polled I2C_FLAG_TBE False n4
              @ tx_ops (mem ?b) txbuffer ns
              @ [Stop_on_bus]
              @ stop_polled ws w\<rparr>"
    by blast
  from len have "length ns = Suc (Suc 0)" by simp
  then obtain n5 n6 where ns: "ns = [n5, n6]"
    by (auto simp: length_Suc_conv)
  have tx: "tx_ops (mem ?b) txbuffer ns =
      [Data_transmit reg] @ polled I2C_FLAG_TBE False n5
      @ [Data_transmit v] @ polled I2C_FLAG_TBE False n6"
    by (simp add: ns tx_ops_Cons tx_ops_Nil)
  have "trace s' = trace s
              @ polled I2C_FLAG_I2CBSY True n1
              @ [Start_on_bus]
              @ polled I2C_FLAG_SBSEND False n2
              @ [Master_addressing (push_bit 1 (ucast a)) I2C_TRANSMITTER]
              @ polled I2C_FLAG_ADDSEND False n3
              @ [Flag_clear I2C_FLAG_ADDSEND]
              @ polled I2C_FLAG_TBE False n4
              @ [Data_transmit reg] @ polled I2C_FLAG_TBE False n5
              @ [Data_transmit v] @ polled I2C_FLAG_TBE False n6
              @ [Stop_on_bus]
              @ stop_polled ws w"
    unfolding s' tx by simp
  with stop show "\<exists>n1 n2 n3 n4 n5 n6 ws w.
         list_all stop_set ws \<and> \<not> stop_set w \<and>
         trace s' = trace s
              @ polled I2C_FLAG_I2CBSY True n1
              @ [Start_on_bus]
              @ polled I2C_FLAG_SBSEND False n2
              @ [Master_addressing (push_bit 1 (ucast a)) I2C_TRANSMITTER]
              @ polled I2C_FLAG_ADDSEND False n3
              @ [Flag_clear I2C_FLAG_ADDSEND]
              @ polled I2C_FLAG_TBE False n4
              @ [Data_transmit reg] @ polled I2C_FLAG_TBE False n5
              @ [Data_transmit v] @ polled I2C_FLAG_TBE False n6
              @ [Stop_on_bus]
              @ stop_polled ws w"
    by blast
qed

theorem reg8_write_one_write_witness:
  "\<exists>r s'. bsp_i2c0_reg8_write slow_dev 0x100 0x50 5 0x77 s0 = Some (r, s') \<and>
      (\<exists>n1 n2 n3 n4 n5 n6 ws w.
         list_all stop_set ws \<and> \<not> stop_set w \<and>
         trace s' = trace s0
              @ polled I2C_FLAG_I2CBSY True n1
              @ [Start_on_bus]
              @ polled I2C_FLAG_SBSEND False n2
              @ [Master_addressing (push_bit 1 (ucast (0x50 :: uint8_t))) I2C_TRANSMITTER]
              @ polled I2C_FLAG_ADDSEND False n3
              @ [Flag_clear I2C_FLAG_ADDSEND]
              @ polled I2C_FLAG_TBE False n4
              @ [Data_transmit 5] @ polled I2C_FLAG_TBE False n5
              @ [Data_transmit 0x77] @ polled I2C_FLAG_TBE False n6
              @ [Stop_on_bus]
              @ stop_polled ws w)"
proof -
  from is_some[OF reg8_write_runs] obtain r s' where
    e: "bsp_i2c0_reg8_write slow_dev 0x100 0x50 5 0x77 s0 = Some (r, s')" by blast
  from reg8_write_one_write[of s0 "0x100" 5 "0x77" slow_dev "0x50" r s'] e
  show ?thesis by blast
qed

text \<open>
  C6: for every count of at least 1, a call of \<^verbatim>\<open>bsp_i2c0_write\<close> that returns
  has made exactly these hardware accesses, in this order: the polls of bus-busy up to the
  first that reads clear; start; the polls of start-sent; the address shifted left by one
  bit, in transmit direction (bit 0, the read/write bit, is clear); the polls of
  address-acknowledged and its clearing; the polls of transmit-buffer-empty; then for
  \<open>i\<close> from 0 to \<open>count - 1\<close>, the transmission of \<^verbatim>\<open>data[i]\<close> followed by the
  polls of transmit-buffer-empty; then stop, and the reads of the control register up to
  the first in which the stop bit is clear.
\<close>

theorem write_access_order:
  assumes "\<not> count < 1" and "bsp_i2c0_write d a data count s = Some (r, s')"
  shows "\<exists>n1 n2 n3 n4 ns ws w.
       length ns = unat count \<and> list_all stop_set ws \<and> \<not> stop_set w \<and>
       \<not> bit (push_bit 1 (ucast a) :: uint32_t) 0 \<and>
       trace s' = trace s
              @ polled I2C_FLAG_I2CBSY True n1
              @ [Start_on_bus]
              @ polled I2C_FLAG_SBSEND False n2
              @ [Master_addressing (push_bit 1 (ucast a)) I2C_TRANSMITTER]
              @ polled I2C_FLAG_ADDSEND False n3
              @ [Flag_clear I2C_FLAG_ADDSEND]
              @ polled I2C_FLAG_TBE False n4
              @ concat (map (\<lambda>i. Data_transmit (mem s (data + of_nat i))
                                  # polled I2C_FLAG_TBE False (ns ! i)) [0..<unat count])
              @ [Stop_on_bus]
              @ stop_polled ws w"
proof -
  from write_shape[OF assms] obtain n1 n2 n3 n4 ns ws w where
    len: "length ns = unat count" and stop: "list_all stop_set ws" "\<not> stop_set w" and
    s': "s' = s\<lparr>trace := trace s
              @ polled I2C_FLAG_I2CBSY True n1
              @ [Start_on_bus]
              @ polled I2C_FLAG_SBSEND False n2
              @ [Master_addressing (push_bit 1 (ucast a)) I2C_TRANSMITTER]
              @ polled I2C_FLAG_ADDSEND False n3
              @ [Flag_clear I2C_FLAG_ADDSEND]
              @ polled I2C_FLAG_TBE False n4
              @ tx_ops (mem s) data ns
              @ [Stop_on_bus]
              @ stop_polled ws w\<rparr>"
    by blast
  have b: "\<not> bit (push_bit 1 (ucast a) :: uint32_t) 0"
    by (simp add: bit_0)
  have "trace s' = trace s
              @ polled I2C_FLAG_I2CBSY True n1
              @ [Start_on_bus]
              @ polled I2C_FLAG_SBSEND False n2
              @ [Master_addressing (push_bit 1 (ucast a)) I2C_TRANSMITTER]
              @ polled I2C_FLAG_ADDSEND False n3
              @ [Flag_clear I2C_FLAG_ADDSEND]
              @ polled I2C_FLAG_TBE False n4
              @ concat (map (\<lambda>i. Data_transmit (mem s (data + of_nat i))
                                  # polled I2C_FLAG_TBE False (ns ! i)) [0..<unat count])
              @ [Stop_on_bus]
              @ stop_polled ws w"
    unfolding s' len[symmetric] by (simp add: tx_ops_def)
  with len stop b show ?thesis by blast
qed

theorem write_access_order_witness:
  "\<not> (3 :: uint8_t) < 1 \<and>
   (\<exists>r s'. bsp_i2c0_write slow_dev 0x50 2 3 s0 = Some (r, s') \<and>
     (\<exists>n1 n2 n3 n4 ns ws w.
       length ns = unat (3 :: uint8_t) \<and> list_all stop_set ws \<and> \<not> stop_set w \<and>
       \<not> bit (push_bit 1 (ucast (0x50 :: uint8_t)) :: uint32_t) 0 \<and>
       trace s' = trace s0
              @ polled I2C_FLAG_I2CBSY True n1
              @ [Start_on_bus]
              @ polled I2C_FLAG_SBSEND False n2
              @ [Master_addressing (push_bit 1 (ucast (0x50 :: uint8_t))) I2C_TRANSMITTER]
              @ polled I2C_FLAG_ADDSEND False n3
              @ [Flag_clear I2C_FLAG_ADDSEND]
              @ polled I2C_FLAG_TBE False n4
              @ concat (map (\<lambda>i. Data_transmit (mem s0 (2 + of_nat i))
                                  # polled I2C_FLAG_TBE False (ns ! i)) [0..<unat (3 :: uint8_t)])
              @ [Stop_on_bus]
              @ stop_polled ws w))"
proof -
  have t: "\<not> (3 :: uint8_t) < 1" by simp
  from is_some[OF write_runs] obtain r s' where
    e: "bsp_i2c0_write slow_dev 0x50 2 3 s0 = Some (r, s')" by blast
  from write_access_order[OF t e] t e show ?thesis by blast
qed

text \<open>
  C7: for every count of at least 1, on each of the three paths (one byte, two bytes,
  three or more), a call of \<^verbatim>\<open>bsp_i2c0_read\<close> that returns has, after its last
  byte-receive, asserted stop, read the control register up to the first read in which
  the stop bit is clear, set the ACK position to "current" and enabled ACK, in that order
  and with nothing else after; so the peripheral is left with ACK enabled and the ACK
  position "current".
\<close>

theorem read_epilogue:
  assumes "\<not> count < 1" and "bsp_i2c0_read d a data count s = Some (r, s')"
  shows "\<exists>pre v ws w.
       list_all stop_set ws \<and> \<not> stop_set w \<and>
       trace s' = trace s @ pre
              @ [Data_receive v]
              @ [Stop_on_bus]
              @ stop_polled ws w
              @ [Ackpos_config I2C_ACKPOS_CURRENT, Ack_config I2C_ACK_ENABLE] \<and>
       ack_setting (trace s') = Some I2C_ACK_ENABLE \<and>
       ackpos_setting (trace s') = Some I2C_ACKPOS_CURRENT"
proof -
  from read_shape[OF assms] obtain t s5 ws w where
    rb: "receive_bytes d data count (s\<lparr>trace := trace s @ t\<rparr>) = Some s5" and
    stop: "list_all stop_set ws" "\<not> stop_set w" and
    s': "s' = s5\<lparr>trace := trace s5 @ [Stop_on_bus] @ stop_polled ws w
                   @ [Ackpos_config I2C_ACKPOS_CURRENT, Ack_config I2C_ACK_ENABLE]\<rparr>"
    by blast
  from rb_last[OF rb] obtain p v where
    "trace s5 = trace (s\<lparr>trace := trace s @ t\<rparr>) @ p @ [Data_receive v]" by blast
  then have s5: "trace s5 = trace s @ (t @ p) @ [Data_receive v]" by simp
  have tr: "trace s' = trace s @ (t @ p)
              @ [Data_receive v]
              @ [Stop_on_bus]
              @ stop_polled ws w
              @ [Ackpos_config I2C_ACKPOS_CURRENT, Ack_config I2C_ACK_ENABLE]"
    by (simp add: s' s5)
  have "trace s' = (trace s @ (t @ p) @ [Data_receive v] @ [Stop_on_bus] @ stop_polled ws w
              @ [Ackpos_config I2C_ACKPOS_CURRENT]) @ [Ack_config I2C_ACK_ENABLE]"
    by (simp add: tr)
  then have a: "ack_setting (trace s') = Some I2C_ACK_ENABLE"
    by (simp only: ack_setting_last)
  have "trace s' = (trace s @ (t @ p) @ [Data_receive v] @ [Stop_on_bus] @ stop_polled ws w)
              @ [Ackpos_config I2C_ACKPOS_CURRENT, Ack_config I2C_ACK_ENABLE]"
    by (simp add: tr)
  then have b: "ackpos_setting (trace s') = Some I2C_ACKPOS_CURRENT"
    by (simp only: ackpos_setting_last)
  from stop tr a b show ?thesis by blast
qed

theorem read_epilogue_witness:
  "\<not> (4 :: uint8_t) < 1 \<and>
   (\<exists>r s'. bsp_i2c0_read slow_dev 0x50 2 4 s0 = Some (r, s') \<and>
     (\<exists>pre v ws w.
       list_all stop_set ws \<and> \<not> stop_set w \<and>
       trace s' = trace s0 @ pre
              @ [Data_receive v]
              @ [Stop_on_bus]
              @ stop_polled ws w
              @ [Ackpos_config I2C_ACKPOS_CURRENT, Ack_config I2C_ACK_ENABLE] \<and>
       ack_setting (trace s') = Some I2C_ACK_ENABLE \<and>
       ackpos_setting (trace s') = Some I2C_ACKPOS_CURRENT))"
proof -
  have t: "\<not> (4 :: uint8_t) < 1" by simp
  from is_some[OF read_runs] obtain r s' where
    e: "bsp_i2c0_read slow_dev 0x50 2 4 s0 = Some (r, s')" by blast
  from read_epilogue[OF t e] t e show ?thesis by blast
qed

text \<open>
  C8: no operation stores outside the bytes it was asked for. After
  \<^verbatim>\<open>bsp_i2c0_read\<close> every byte other than \<^verbatim>\<open>data[0]\<close> to
  \<^verbatim>\<open>data[count-1]\<close> is what it was; \<^verbatim>\<open>bsp_i2c0_write\<close> changes no byte;
  \<^verbatim>\<open>bsp_i2c0_reg8_read\<close> changes at most the byte \<^verbatim>\<open>*value\<close>; and
  \<^verbatim>\<open>bsp_i2c0_reg8_write\<close>, whose arguments are all passed by value, changes no byte
  but the two of its own local array.
\<close>

theorem stores_stay_in_buffer:
  "(bsp_i2c0_read d a data count s = Some (r, s') \<longrightarrow>
      (\<forall>x. (\<forall>k<unat count. x \<noteq> data + of_nat k) \<longrightarrow> mem s' x = mem s x)) \<and>
   (bsp_i2c0_write d a data count s = Some (rw, sw) \<longrightarrow> mem sw = mem s) \<and>
   (bsp_i2c0_reg8_read d a reg val s = Some (r8, s8) \<longrightarrow>
      (\<forall>x. x \<noteq> val \<longrightarrow> mem s8 x = mem s x)) \<and>
   (bsp_i2c0_reg8_write d txbuffer a reg v s = Some (r9, s9) \<longrightarrow>
      (\<forall>x. x \<noteq> txbuffer \<and> x \<noteq> txbuffer + 1 \<longrightarrow> mem s9 x = mem s x))"
proof (intro conjI impI allI)
  fix x assume "bsp_i2c0_read d a data count s = Some (r, s')"
    "\<forall>k<unat count. x \<noteq> data + of_nat k"
  then show "mem s' x = mem s x" by (rule read_frame)
next
  assume "bsp_i2c0_write d a data count s = Some (rw, sw)"
  then show "mem sw = mem s" by (rule write_mem)
next
  fix x assume "bsp_i2c0_reg8_read d a reg val s = Some (r8, s8)" "x \<noteq> val"
  then show "mem s8 x = mem s x" by (rule reg8_read_frame)
next
  fix x assume "bsp_i2c0_reg8_write d txbuffer a reg v s = Some (r9, s9)"
    "x \<noteq> txbuffer \<and> x \<noteq> txbuffer + 1"
  then show "mem s9 x = mem s x" by (auto intro: reg8_write_frame)
qed

theorem stores_stay_in_buffer_witness:
  "\<exists>r s' rw sw r8 s8 r9 s9.
     bsp_i2c0_read slow_dev 0x50 2 3 s0 = Some (r, s') \<and>
     (\<forall>k<unat (3 :: uint8_t). (5 :: uint32_t) \<noteq> 2 + of_nat k) \<and> mem s' 5 = mem s0 5 \<and>
     bsp_i2c0_write slow_dev 0x50 2 3 s0 = Some (rw, sw) \<and> mem sw = mem s0 \<and>
     bsp_i2c0_reg8_read slow_dev 0x50 5 2 s0 = Some (r8, s8) \<and>
     (3 :: uint32_t) \<noteq> 2 \<and> mem s8 3 = mem s0 3 \<and>
     bsp_i2c0_reg8_write slow_dev 0x100 0x50 5 0x77 s0 = Some (r9, s9) \<and>
     (2 :: uint32_t) \<noteq> 0x100 \<and> (2 :: uint32_t) \<noteq> 0x100 + 1 \<and> mem s9 2 = mem s0 2"
proof -
  from is_some[OF read3_runs] obtain r s' where
    e1: "bsp_i2c0_read slow_dev 0x50 2 3 s0 = Some (r, s')" by blast
  from is_some[OF write_runs] obtain rw sw where
    e2: "bsp_i2c0_write slow_dev 0x50 2 3 s0 = Some (rw, sw)" by blast
  from is_some[OF reg8_read_runs] obtain r8 s8 where
    e3: "bsp_i2c0_reg8_read slow_dev 0x50 5 2 s0 = Some (r8, s8)" by blast
  from is_some[OF reg8_write_runs] obtain r9 s9 where
    e4: "bsp_i2c0_reg8_write slow_dev 0x100 0x50 5 0x77 s0 = Some (r9, s9)" by blast
  have h1: "\<forall>k<unat (3 :: uint8_t). (5 :: uint32_t) \<noteq> 2 + of_nat k"
  proof (intro allI impI)
    fix k :: nat assume "k < unat (3 :: uint8_t)"
    then have "k = 0 \<or> k = 1 \<or> k = 2" by auto
    then show "(5 :: uint32_t) \<noteq> 2 + of_nat k" by auto
  qed
  have h3: "(3 :: uint32_t) \<noteq> 2" by simp
  have h4: "(2 :: uint32_t) \<noteq> 0x100" "(2 :: uint32_t) \<noteq> 0x100 + 1" by simp_all
  from stores_stay_in_buffer[of slow_dev "0x50" 2 3 s0 r s' rw sw 5 2 r8 s8 "0x100" "0x77" r9 s9]
    e1 e2 e3 e4 h1 h3 h4
  show ?thesis by blast
qed

text \<open>
  C9: \<^verbatim>\<open>bsp_i2c0_write\<close> never modifies the caller's buffer: whenever the call
  returns, with OK or with FAIL, every byte of the store, the bytes
  \<^verbatim>\<open>data[0..count-1]\<close> among them, is what it was before the call.
\<close>

theorem write_leaves_store:
  "bsp_i2c0_write d a data count s = Some (r, s') \<Longrightarrow> mem s' = mem s"
  by (rule write_mem)

theorem write_leaves_store_witness:
  "\<exists>r s'. bsp_i2c0_write slow_dev 0x50 2 3 s0 = Some (r, s') \<and> mem s' = mem s0"
proof -
  from is_some[OF write_runs] obtain r s' where
    e: "bsp_i2c0_write slow_dev 0x50 2 3 s0 = Some (r, s')" by blast
  from write_leaves_store[OF e] e show ?thesis by blast
qed

text \<open>
  C10: in \<^verbatim>\<open>bsp_i2c0_read\<close> with a count of exactly 3 the polls of
  byte-transfer-complete and the ACK-disable come at loop iteration 0, right after
  address-acknowledged is cleared: they precede every byte-receive of the transaction,
  the first one included.
\<close>

theorem read3_ack_disable_first:
  assumes "bsp_i2c0_read d a data 3 s = Some (r, s')"
  shows "\<exists>n1 n2 n3 nb m0 v0 m1 v1 m2 v2 ws w.
       trace s' = trace s
              @ [Ackpos_config I2C_ACKPOS_NEXT]
              @ polled I2C_FLAG_I2CBSY True n1
              @ [Start_on_bus]
              @ polled I2C_FLAG_SBSEND False n2
              @ [Master_addressing (push_bit 1 (ucast a)) I2C_RECEIVER]
              @ polled I2C_FLAG_ADDSEND False n3
              @ [Flag_clear I2C_FLAG_ADDSEND]
              @ polled I2C_FLAG_BTC False nb
              @ [Ack_config I2C_ACK_DISABLE]
              @ polled I2C_FLAG_RBNE False m0 @ [Data_receive v0]
              @ polled I2C_FLAG_RBNE False m1 @ [Data_receive v1]
              @ polled I2C_FLAG_RBNE False m2 @ [Data_receive v2]
              @ [Stop_on_bus]
              @ stop_polled ws w
              @ [Ackpos_config I2C_ACKPOS_CURRENT, Ack_config I2C_ACK_ENABLE]"
proof -
  have "\<not> (3 :: uint8_t) < 1" by simp
  from read_shape[OF this assms] obtain n1 n2 n3 s5 ws w where
    rb: "receive_bytes d data 3
         (s\<lparr>trace := trace s
              @ [Ackpos_config I2C_ACKPOS_NEXT]
              @ polled I2C_FLAG_I2CBSY True n1
              @ [Start_on_bus]
              @ polled I2C_FLAG_SBSEND False n2
              @ [Master_addressing (push_bit 1 (ucast a)) I2C_RECEIVER]
              @ polled I2C_FLAG_ADDSEND False n3
              @ [Flag_clear I2C_FLAG_ADDSEND]\<rparr>) = Some s5" and
    s': "s' = s5\<lparr>trace := trace s5 @ [Stop_on_bus] @ stop_polled ws w
                   @ [Ackpos_config I2C_ACKPOS_CURRENT, Ack_config I2C_ACK_ENABLE]\<rparr>"
    by blast
  from rb_three[OF rb] obtain nb m0 v0 m1 v1 m2 v2 where
    "trace s5 = trace s
              @ [Ackpos_config I2C_ACKPOS_NEXT]
              @ polled I2C_FLAG_I2CBSY True n1
              @ [Start_on_bus]
              @ polled I2C_FLAG_SBSEND False n2
              @ [Master_addressing (push_bit 1 (ucast a)) I2C_RECEIVER]
              @ polled I2C_FLAG_ADDSEND False n3
              @ [Flag_clear I2C_FLAG_ADDSEND]
              @ polled I2C_FLAG_BTC False nb
              @ [Ack_config I2C_ACK_DISABLE]
              @ polled I2C_FLAG_RBNE False m0 @ [Data_receive v0]
              @ polled I2C_FLAG_RBNE False m1 @ [Data_receive v1]
              @ polled I2C_FLAG_RBNE False m2 @ [Data_receive v2]"
    by fastforce
  with s' have "trace s' = trace s
              @ [Ackpos_config I2C_ACKPOS_NEXT]
              @ polled I2C_FLAG_I2CBSY True n1
              @ [Start_on_bus]
              @ polled I2C_FLAG_SBSEND False n2
              @ [Master_addressing (push_bit 1 (ucast a)) I2C_RECEIVER]
              @ polled I2C_FLAG_ADDSEND False n3
              @ [Flag_clear I2C_FLAG_ADDSEND]
              @ polled I2C_FLAG_BTC False nb
              @ [Ack_config I2C_ACK_DISABLE]
              @ polled I2C_FLAG_RBNE False m0 @ [Data_receive v0]
              @ polled I2C_FLAG_RBNE False m1 @ [Data_receive v1]
              @ polled I2C_FLAG_RBNE False m2 @ [Data_receive v2]
              @ [Stop_on_bus]
              @ stop_polled ws w
              @ [Ackpos_config I2C_ACKPOS_CURRENT, Ack_config I2C_ACK_ENABLE]"
    by simp
  then show ?thesis by blast
qed

theorem read3_ack_disable_first_witness:
  "\<exists>r s'. bsp_i2c0_read slow_dev 0x50 2 3 s0 = Some (r, s') \<and>
    (\<exists>n1 n2 n3 nb m0 v0 m1 v1 m2 v2 ws w.
       trace s' = trace s0
              @ [Ackpos_config I2C_ACKPOS_NEXT]
              @ polled I2C_FLAG_I2CBSY True n1
              @ [Start_on_bus]
              @ polled I2C_FLAG_SBSEND False n2
              @ [Master_addressing (push_bit 1 (ucast (0x50 :: uint8_t))) I2C_RECEIVER]
              @ polled I2C_FLAG_ADDSEND False n3
              @ [Flag_clear I2C_FLAG_ADDSEND]
              @ polled I2C_FLAG_BTC False nb
              @ [Ack_config I2C_ACK_DISABLE]
              @ polled I2C_FLAG_RBNE False m0 @ [Data_receive v0]
              @ polled I2C_FLAG_RBNE False m1 @ [Data_receive v1]
              @ polled I2C_FLAG_RBNE False m2 @ [Data_receive v2]
              @ [Stop_on_bus]
              @ stop_polled ws w
              @ [Ackpos_config I2C_ACKPOS_CURRENT, Ack_config I2C_ACK_ENABLE])"
proof -
  from is_some[OF read3_runs] obtain r s' where
    e: "bsp_i2c0_read slow_dev 0x50 2 3 s0 = Some (r, s')" by blast
  from read3_ack_disable_first[OF e] e show ?thesis by blast
qed

end
